theory Spec2Isabelle
  imports Main
begin

section \<open>Data model of the checker (src/backends/checker.py)\<close>

text \<open>
  Modelled from the spec: the catalog classes (Repository, Collection, Class) and the
  backend databases with their BaseEntry are defined outside \<open>checker.py\<close>. The
  records below hold the attributes \<open>checker.py\<close> reads, typed as section 3 of the
  specification describes them. A class carries \<open>id\<close>, \<open>standard\<close> (a string)
  and \<open>parameters.common\<close>; a collection carries \<open>id\<close>, \<open>classes_by_ids()\<close>,
  its license and its authors; a repository carries \<open>path\<close> and \<open>collections\<close>;
  a BaseEntry carries \<open>filename\<close>, its license, \<open>classids\<close> and the results of
  \<open>get_svg()\<close> and \<open>get_png()\<close> (\<open>None\<close> when the artifact is absent). The
  attribute \<open>id\<close> is named \<open>cl_id\<close> and \<open>coll_id\<close>, and the license fields carry
  the prefix of their record, since field names are global. Python dictionaries are
  association lists in iteration order (keys distinct in a well-formed dictionary);
  \<open>k in d\<close> and \<open>d[k]\<close> are lookups with \<open>map_of\<close>. Strings are byte strings.
\<close>

record parameter_set =
  common :: "string list"

record bolts_class =
  cl_id :: string
  standard :: string
  parameters :: parameter_set

record collection =
  coll_id :: string
  classes_by_ids :: "bolts_class list"
  coll_license_name :: string
  coll_license_url :: string
  authors :: "string list"

record repository =
  path :: string
  collections :: "collection list"

record base_entry =
  filename :: string
  base_license_name :: string
  base_license_url :: string
  classids :: "string list"
  get_svg :: "string option"
  get_png :: "string option"

record database =
  getbase :: "(string \<times> base_entry) list"

type_synonym databases = "(string \<times> database) list"

text \<open>A row holds what the checks append: strings and Python booleans.\<close>

datatype cell = S string | B bool

type_synonym row = "cell list"

fun str :: "cell \<Rightarrow> string" where
  "str (S s) = s"
| "str (B True) = ''True''"
| "str (B False) = ''False''"

fun truthy :: "cell \<Rightarrow> bool" where
  "truthy (S s) = (s \<noteq> [])"
| "truthy (B b) = b"

definition py_and :: "cell \<Rightarrow> cell \<Rightarrow> cell" where
  "py_and a b = (if truthy a then b else a)"

datatype error = KeyError string | IndexError | UnboundLocalError string | OSError string

text \<open>
  A statement that may raise returns \<open>Inl (e, s)\<close>: the exception together with the
  state reached when it was raised (rows appended before a raise stay in \<open>self.rows\<close>),
  or \<open>Inr s\<close> when it completes.
\<close>

type_synonym 's outcome = "(error \<times> 's) + 's"

definition final_state :: "'s outcome \<Rightarrow> 's" where
  "final_state r = (case r of Inl (e, s) \<Rightarrow> s | Inr s \<Rightarrow> s)"

text \<open>\<open>for x in xs: body\<close>, the loop stopping at the first exception.\<close>

fun for_each :: "'a list \<Rightarrow> ('a \<Rightarrow> 's \<Rightarrow> 's outcome) \<Rightarrow> 's \<Rightarrow> 's outcome" where
  "for_each [] body s = Inr s"
| "for_each (x # xs) body s =
     (case body x s of Inl e \<Rightarrow> Inl e | Inr s' \<Rightarrow> for_each xs body s')"

definition getitem :: "(string \<times> 'v) list \<Rightarrow> string \<Rightarrow> error + 'v" where
  "getitem d k = (case map_of d k of None \<Rightarrow> Inl (KeyError k) | Some v \<Rightarrow> Inr v)"

fun str_join :: "string \<Rightarrow> string list \<Rightarrow> string" where
  "str_join sep [] = []"
| "str_join sep [x] = x"
| "str_join sep (x # y # ys) = x @ sep @ str_join sep (y # ys)"

text \<open>
  What the checker imports: \<open>license.check_license\<close> and, from \<open>os\<close> and
  \<open>os.path\<close>, \<open>join\<close> (called with three arguments), \<open>exists\<close>,
  \<open>listdir\<close> (which may raise), \<open>basename\<close> and \<open>splitext\<close>. They are
  parameters of the model: every result below holds for all of them.
\<close>

record environment =
  check_license :: "string \<Rightarrow> string \<Rightarrow> bool"
  os_join :: "string \<Rightarrow> string \<Rightarrow> string \<Rightarrow> string"
  os_exists :: "string \<Rightarrow> bool"
  os_listdir :: "string \<Rightarrow> error + string list"
  os_basename :: "string \<Rightarrow> string"
  os_splitext :: "string \<Rightarrow> string \<times> string"

definition contains :: "string \<Rightarrow> (string \<times> 'v) list \<Rightarrow> bool" where
  "contains k d = (map_of d k \<noteq> None)"

section \<open>ErrorTable\<close>

record error_table =
  title :: string
  description :: string
  rows :: "row list"
  headers :: "string list"

definition ErrorTable_init :: "string \<Rightarrow> string \<Rightarrow> string list \<Rightarrow> error_table" where
  "ErrorTable_init t d h = \<lparr>title = t, description = d, rows = [], headers = h\<rparr>"

definition ErrorTable_populate :: "error_table \<Rightarrow> repository \<Rightarrow> databases \<Rightarrow> error_table outcome" where
  "ErrorTable_populate self repo dbs = Inr self"

definition get_headers :: "error_table \<Rightarrow> string list" where
  "get_headers self = headers self"

definition get_table :: "error_table \<Rightarrow> row list" where
  "get_table self = rows self"

text \<open>The loops of the checks work on \<open>self.rows\<close>; the result is stored back.\<close>

definition with_rows :: "error_table \<Rightarrow> row list outcome \<Rightarrow> error_table outcome" where
  "with_rows self r =
     (case r of Inl (e, rs) \<Rightarrow> Inl (e, self\<lparr>rows := rs\<rparr>) | Inr rs \<Rightarrow> Inr (self\<lparr>rows := rs\<rparr>))"

text \<open>All (collection, class) pairs in the order of the two nested loops.\<close>

definition repo_classes :: "repository \<Rightarrow> (collection \<times> bolts_class) list" where
  "repo_classes repo =
     concat (map (\<lambda>coll. map (Pair coll) (classes_by_ids coll)) (collections repo))"

section \<open>MissingBaseTable\<close>

definition MissingBaseTable_init :: error_table where
  "MissingBaseTable_init = ErrorTable_init
     ''Missing base geometries''
     ''Some classes can not be used in one or more CAD packages, because no geometry is available.''
     [''Class id'', ''Collection'', ''Standards'', ''FreeCAD'', ''OpenSCAD'']"

definition MissingBase_body :: "databases \<Rightarrow> collection \<Rightarrow> bolts_class \<Rightarrow> row list \<Rightarrow> row list outcome" where
  "MissingBase_body dbs coll cl rs =
     (case getitem dbs ''freecad'' of
        Inl e \<Rightarrow> Inl (e, rs)
      | Inr fc \<Rightarrow>
     (case getitem dbs ''openscad'' of
        Inl e \<Rightarrow> Inl (e, rs)
      | Inr osc \<Rightarrow>
        (let row = [S (cl_id cl), S (coll_id coll), S (standard cl),
                    B (contains (cl_id cl) (getbase fc)),
                    B (contains (cl_id cl) (getbase osc))]
         in if \<not> truthy (py_and (row ! (length row - 1)) (row ! (length row - 2)))
            then Inr (rs @ [row]) else Inr rs)))"

definition MissingBaseTable_populate :: "error_table \<Rightarrow> repository \<Rightarrow> databases \<Rightarrow> error_table outcome" where
  "MissingBaseTable_populate self repo dbs =
     with_rows self
       (for_each (collections repo)
          (\<lambda>coll. for_each (classes_by_ids coll) (MissingBase_body dbs coll)) (rows self))"

section \<open>UnknownClassTable\<close>

definition UnknownClassTable_init :: error_table where
  "UnknownClassTable_init = ErrorTable_init
     ''Unknown classes''
     ''Some classes are mentioned in base files, but never defined in blt files.''
     [''Class id'', ''Database'']"

text \<open>
  The function \<open>populate\<close> written inside \<open>__init__\<close>: a local of the constructor,
  not an attribute of the class.
\<close>

definition UnknownClassTable_init_populate :: "error_table \<Rightarrow> repository \<Rightarrow> databases \<Rightarrow> error_table outcome" where
  "UnknownClassTable_init_populate self repo dbs =
     (let ids = map (\<lambda>(coll, cl). cl_id cl) (repo_classes repo)
      in with_rows self
        (for_each (map fst dbs)
           (\<lambda>db rs. case getitem dbs db of
                Inl e \<Rightarrow> Inl (e, rs)
              | Inr d \<Rightarrow>
                  for_each (map snd (getbase d))
                    (\<lambda>base. for_each (classids base)
                       (\<lambda>cl_id rs. if cl_id \<notin> set ids then Inr (rs @ [[S cl_id, S db]]) else Inr rs))
                    rs)
           (rows self)))"

section \<open>MissingCommonParametersTable\<close>

definition MissingCommonParametersTable_init :: error_table where
  "MissingCommonParametersTable_init = ErrorTable_init
     ''Missing common parameters''
     ''Some classes have no common parameters defined.''
     [''Class ID'', ''Collection'', ''Standards'']"

definition MissingCommonParameters_body :: "collection \<Rightarrow> bolts_class \<Rightarrow> row list \<Rightarrow> row list outcome" where
  "MissingCommonParameters_body coll cl rs =
     (if length (common (parameters cl)) = 0
      then Inr (rs @ [[S (cl_id cl), S (coll_id coll), S (standard cl)]])
      else Inr rs)"

definition MissingCommonParametersTable_populate :: "error_table \<Rightarrow> repository \<Rightarrow> databases \<Rightarrow> error_table outcome" where
  "MissingCommonParametersTable_populate self repo dbs =
     with_rows self
       (for_each (collections repo)
          (\<lambda>coll. for_each (classes_by_ids coll) (MissingCommonParameters_body coll)) (rows self))"

section \<open>MissingDrawingTable\<close>

definition MissingDrawingTable_init :: error_table where
  "MissingDrawingTable_init = ErrorTable_init
     ''Missing drawings''
     ''Some classes do not have associated drawings.''
     [''Class id'', ''Collection'', ''Standards'']"

definition MissingDrawing_body :: "databases \<Rightarrow> collection \<Rightarrow> bolts_class \<Rightarrow> row list \<Rightarrow> row list outcome" where
  "MissingDrawing_body dbs coll cl rs =
     (case getitem dbs ''drawings'' of
        Inl e \<Rightarrow> Inl (e, rs)
      | Inr d \<Rightarrow>
          if \<not> contains (cl_id cl) (getbase d)
          then Inr (rs @ [[S (coll_id coll), S (standard cl)]])
          else Inr rs)"

definition MissingDrawingTable_populate :: "error_table \<Rightarrow> repository \<Rightarrow> databases \<Rightarrow> error_table outcome" where
  "MissingDrawingTable_populate self repo dbs =
     with_rows self
       (for_each (collections repo)
          (\<lambda>coll. for_each (classes_by_ids coll) (MissingDrawing_body dbs coll)) (rows self))"

section \<open>MissingSVGSourceTable\<close>

definition MissingSVGSourceTable_init :: error_table where
  "MissingSVGSourceTable_init = ErrorTable_init
     ''Missing svg drawings''
     ''Some drawings have no svg version.''
     [''Filename'', ''Class ID'']"

definition MissingSVGSourceTable_populate :: "error_table \<Rightarrow> repository \<Rightarrow> databases \<Rightarrow> error_table outcome" where
  "MissingSVGSourceTable_populate self repo dbs =
     with_rows self
       (case getitem dbs ''drawings'' of
          Inl e \<Rightarrow> Inl (e, rows self)
        | Inr d \<Rightarrow>
            for_each (getbase d)
              (\<lambda>(id, draw) rs. if get_svg draw = None
                 then Inr (rs @ [[S (filename draw), S id]]) else Inr rs)
              (rows self))"

section \<open>UnsupportedLicenseTable\<close>

definition UnsupportedLicenseTable_init :: error_table where
  "UnsupportedLicenseTable_init = ErrorTable_init
     ''Incompatible Licenses''
     ''Some collections or base geometries have unknown licenses.''
     [''Type'', ''Id/Filename'', ''License name'', ''License url'', ''Authors'']"

text \<open>
  The state of \<open>populate\<close> is the local variable \<open>coll\<close> (\<open>None\<close> while it is
  unbound) and \<open>self.rows\<close>. The first loop binds \<open>coll\<close> at every iteration; the
  second loop reads it.
\<close>

type_synonym license_state = "collection option \<times> row list"

definition UnsupportedLicense_coll_body :: "environment \<Rightarrow> collection \<Rightarrow> license_state \<Rightarrow> license_state outcome" where
  "UnsupportedLicense_coll_body env c st =
     (let coll = Some c; rs = snd st
      in if \<not> check_license env (coll_license_name c) (coll_license_url c)
         then Inr (coll, rs @ [[S ''Collection'', S (coll_id c), S (coll_license_name c),
                                S (coll_license_url c), S (str_join '','' (authors c))]])
         else Inr (coll, rs))"

definition UnsupportedLicense_base_body :: "environment \<Rightarrow> string \<Rightarrow> string \<times> base_entry \<Rightarrow> license_state \<Rightarrow> license_state outcome" where
  "UnsupportedLicense_base_body env db item st =
     (let id = fst item; base = snd item; coll = fst st; rs = snd st
      in if \<not> check_license env (base_license_name base) (base_license_url base)
         then (case coll of
                 None \<Rightarrow> Inl (UnboundLocalError ''coll'', st)
               | Some c \<Rightarrow>
                   Inr (coll, rs @ [[S db, S id, S (base_license_name base),
                                     S (base_license_url base), S (str_join '','' (authors c))]]))
         else Inr st)"

definition UnsupportedLicense_loops :: "environment \<Rightarrow> repository \<Rightarrow> databases \<Rightarrow> row list \<Rightarrow> license_state outcome" where
  "UnsupportedLicense_loops env repo dbs rs =
     (case for_each (collections repo) (UnsupportedLicense_coll_body env) (None, rs) of
        Inl e \<Rightarrow> Inl e
      | Inr st \<Rightarrow>
          for_each (map fst dbs)
            (\<lambda>db st. case getitem dbs db of
                 Inl e \<Rightarrow> Inl (e, st)
               | Inr d \<Rightarrow> for_each (getbase d) (UnsupportedLicense_base_body env db) st)
            st)"

definition UnsupportedLicenseTable_populate :: "environment \<Rightarrow> error_table \<Rightarrow> repository \<Rightarrow> databases \<Rightarrow> error_table outcome" where
  "UnsupportedLicenseTable_populate env self repo dbs =
     (case UnsupportedLicense_loops env repo dbs (rows self) of
        Inl (e, st) \<Rightarrow> Inl (e, self\<lparr>rows := snd st\<rparr>)
      | Inr st \<Rightarrow> Inr (self\<lparr>rows := snd st\<rparr>))"

section \<open>UnknownFileTable\<close>

definition UnknownFileTable_init :: error_table where
  "UnknownFileTable_init = ErrorTable_init
     ''Stray files''
     ''Some files are present in the repository, but not mentioned anywhere.''
     [''Filename'', ''Path'']"

text \<open>\<open>if name in files: files.remove(name)\<close>; \<open>remove\<close> drops the first occurrence.\<close>

definition remove_known :: "string \<Rightarrow> string list \<Rightarrow> string list" where
  "remove_known name files = (if name \<in> set files then remove1 name files else files)"

text \<open>The loop over the classes of a collection that removes the files known from bases.\<close>

definition UnknownFile_known_body :: "databases \<Rightarrow> string \<Rightarrow> bolts_class \<Rightarrow> string list \<Rightarrow> string list outcome" where
  "UnknownFile_known_body dbs db cl files =
     (case getitem dbs db of
        Inl e \<Rightarrow> Inl (e, files)
      | Inr d \<Rightarrow>
          if \<not> contains (cl_id cl) (getbase d) then Inr files
          else (case getitem (getbase d) (cl_id cl) of
                  Inl e \<Rightarrow> Inl (e, files)
                | Inr base \<Rightarrow> Inr (remove_known (filename base) files)))"

definition UnknownFile_drawing_body :: "environment \<Rightarrow> databases \<Rightarrow> bolts_class \<Rightarrow> string list \<Rightarrow> string list outcome" where
  "UnknownFile_drawing_body env dbs cl files =
     (case getitem dbs ''drawings'' of
        Inl e \<Rightarrow> Inl (e, files)
      | Inr d \<Rightarrow>
          if \<not> contains (cl_id cl) (getbase d) then Inr files
          else (case getitem (getbase d) (cl_id cl) of
                  Inl e \<Rightarrow> Inl (e, files)
                | Inr drawing \<Rightarrow>
                    (let files1 = (case get_png drawing of
                                     None \<Rightarrow> files
                                   | Some p \<Rightarrow> remove_known (os_basename env p) files);
                         files2 = (case get_svg drawing of
                                     None \<Rightarrow> files1
                                   | Some p \<Rightarrow> remove_known (os_basename env p) files1)
                     in Inr files2)))"

text \<open>The loop "check what is left".\<close>

definition UnknownFile_left_body :: "environment \<Rightarrow> string \<Rightarrow> string \<Rightarrow> row list \<Rightarrow> row list outcome" where
  "UnknownFile_left_body env p name rs =
     (if snd (os_splitext env name) = ''.base'' then Inr rs
      else Inr (rs @ [[S name, S p]]))"

text \<open>
  The body of \<open>for coll in repo.collections\<close>, parameterised by the loop that removes
  the known files (the generic pass and the drawings pass differ only there).
\<close>

definition UnknownFile_coll_body ::
    "environment \<Rightarrow> repository \<Rightarrow> string \<Rightarrow> (bolts_class \<Rightarrow> string list \<Rightarrow> string list outcome)
     \<Rightarrow> collection \<Rightarrow> row list \<Rightarrow> row list outcome" where
  "UnknownFile_coll_body env repo db known coll rs =
     (let p = os_join env (path repo) db (coll_id coll)
      in if \<not> os_exists env p then Inr rs
         else (case os_listdir env p of
                 Inl e \<Rightarrow> Inl (e, rs)
               | Inr listing \<Rightarrow>
                   (case for_each (classes_by_ids coll) known listing of
                      Inl (e, files) \<Rightarrow> Inl (e, rs)
                    | Inr files \<Rightarrow> for_each files (UnknownFile_left_body env p) rs)))"

definition UnknownFile_generic :: "environment \<Rightarrow> repository \<Rightarrow> databases \<Rightarrow> row list \<Rightarrow> row list outcome" where
  "UnknownFile_generic env repo dbs rs =
     for_each (map fst dbs)
       (\<lambda>db rs. if db = ''drawings'' then Inr rs
                else for_each (collections repo)
                       (UnknownFile_coll_body env repo db (UnknownFile_known_body dbs db)) rs)
       rs"

definition UnknownFile_drawings :: "environment \<Rightarrow> repository \<Rightarrow> databases \<Rightarrow> row list \<Rightarrow> row list outcome" where
  "UnknownFile_drawings env repo dbs rs =
     (if contains ''drawings'' dbs
      then for_each (collections repo)
             (UnknownFile_coll_body env repo ''drawings'' (UnknownFile_drawing_body env dbs)) rs
      else Inr rs)"

definition UnknownFileTable_populate :: "environment \<Rightarrow> error_table \<Rightarrow> repository \<Rightarrow> databases \<Rightarrow> error_table outcome" where
  "UnknownFileTable_populate env self repo dbs =
     with_rows self
       (case UnknownFile_generic env repo dbs (rows self) of
          Inl e \<Rightarrow> Inl e
        | Inr rs \<Rightarrow> UnknownFile_drawings env repo dbs rs)"

section \<open>The classes and their methods\<close>

text \<open>
  The seven subclasses of \<open>ErrorTable\<close> that \<open>CheckerExporter\<close> instantiates. A
  subclass either defines \<open>populate\<close> in its class body or inherits the one of
  \<open>ErrorTable\<close>; \<open>new\<close> is the call of its constructor.
\<close>

datatype check_class =
    MissingBaseTable | UnknownClassTable | MissingCommonParametersTable | MissingDrawingTable
  | MissingSVGSourceTable | UnsupportedLicenseTable | UnknownFileTable

type_synonym populate_fn = "environment \<Rightarrow> error_table \<Rightarrow> repository \<Rightarrow> databases \<Rightarrow> error_table outcome"

fun class_populate :: "check_class \<Rightarrow> populate_fn option" where
  "class_populate MissingBaseTable = Some (\<lambda>env. MissingBaseTable_populate)"
| "class_populate UnknownClassTable = None"
| "class_populate MissingCommonParametersTable = Some (\<lambda>env. MissingCommonParametersTable_populate)"
| "class_populate MissingDrawingTable = Some (\<lambda>env. MissingDrawingTable_populate)"
| "class_populate MissingSVGSourceTable = Some (\<lambda>env. MissingSVGSourceTable_populate)"
| "class_populate UnsupportedLicenseTable = Some UnsupportedLicenseTable_populate"
| "class_populate UnknownFileTable = Some UnknownFileTable_populate"

definition populate :: "check_class \<Rightarrow> populate_fn" where
  "populate c = (case class_populate c of
                   Some m \<Rightarrow> m
                 | None \<Rightarrow> (\<lambda>env. ErrorTable_populate))"

fun new :: "check_class \<Rightarrow> error_table" where
  "new MissingBaseTable = MissingBaseTable_init"
| "new UnknownClassTable = UnknownClassTable_init"
| "new MissingCommonParametersTable = MissingCommonParametersTable_init"
| "new MissingDrawingTable = MissingDrawingTable_init"
| "new MissingSVGSourceTable = MissingSVGSourceTable_init"
| "new UnsupportedLicenseTable = UnsupportedLicenseTable_init"
| "new UnknownFileTable = UnknownFileTable_init"

section \<open>print_table\<close>

text \<open>\<open>"%-*s" % (w, v)\<close>: \<open>str(v)\<close> left-justified in a field of width \<open>w\<close>.\<close>

definition ljust :: "nat \<Rightarrow> string \<Rightarrow> string" where
  "ljust w s = s @ replicate (w - length s) (CHR '' '')"

definition newline :: string where
  "newline = [CHR 0x0A]"

text \<open>
  "determine maximum field width": \<open>width[i] = ...\<close> raises IndexError when a row has
  more cells than there are headers.
\<close>

definition width_body :: "row \<Rightarrow> nat \<Rightarrow> nat list \<Rightarrow> nat list outcome" where
  "width_body row i width =
     (if i < length width
      then Inr (width[i := max (length (str (row ! i))) (width ! i)])
      else Inl (IndexError, width))"

definition field_widths :: "error_table \<Rightarrow> nat list outcome" where
  "field_widths self =
     for_each (rows self) (\<lambda>row. for_each [0..<length row] (width_body row))
       (map length (headers self))"

definition header_line :: "nat list \<Rightarrow> string list \<Rightarrow> string" where
  "header_line width hs = concat (map (\<lambda>i. ljust (width ! i) (hs ! i)) [0..<length hs])"

definition row_line :: "nat list \<Rightarrow> row \<Rightarrow> string" where
  "row_line width row = concat (map (\<lambda>(w, v). ljust w (str v)) (zip width row))"

definition print_table :: "error_table \<Rightarrow> error + string" where
  "print_table self =
     (if length (rows self) = 0 then Inr []
      else (case field_widths self of
              Inl (e, w) \<Rightarrow> Inl e
            | Inr width0 \<Rightarrow>
                (let width = map (\<lambda>w. w + 2) width0;
                     res = [title self,
                            replicate (length (title self)) (CHR ''-'') @ newline,
                            description self @ newline,
                            header_line width (headers self),
                            concat (map (\<lambda>w. replicate w (CHR ''-'')) width)]
                           @ map (row_line width) (rows self)
                           @ [newline]
                 in Inr (str_join newline res))))"

section \<open>Example inputs\<close>

text \<open>
  A small catalog on which the results below are evaluated: collection \<open>C1\<close> with
  class \<open>A\<close> (no common parameters, geometry in "freecad" only, no drawing) and class
  \<open>B\<close> (one common parameter, no geometry, a drawing with a PNG but no SVG). The
  environment accepts the license "LGPL" only, joins paths with "/", and has two
  directories. \<open>posix_basename\<close> and \<open>posix_splitext\<close> follow \<open>posixpath\<close>.
\<close>

definition posix_basename :: "string \<Rightarrow> string" where
  "posix_basename p = rev (takeWhile (\<lambda>c. c \<noteq> CHR ''/'') (rev p))"

definition posix_splitext :: "string \<Rightarrow> string \<times> string" where
  "posix_splitext p =
     (let body = dropWhile (\<lambda>c. c = CHR ''.'') (posix_basename p)
      in if CHR ''.'' \<in> set body
         then (let ext = CHR ''.'' # rev (takeWhile (\<lambda>c. c \<noteq> CHR ''.'') (rev p))
               in (take (length p - length ext) p, ext))
         else (p, []))"


definition ex_A :: bolts_class where
  "ex_A = \<lparr>cl_id = ''A'', standard = ''DIN1'', parameters = \<lparr>common = []\<rparr>\<rparr>"
definition ex_B :: bolts_class where
  "ex_B = \<lparr>cl_id = ''B'', standard = ''ISO2'', parameters = \<lparr>common = [''d'']\<rparr>\<rparr>"
definition ex_C1 :: collection where
  "ex_C1 = \<lparr>coll_id = ''C1'', classes_by_ids = [ex_A, ex_B], coll_license_name = ''LGPL'',
            coll_license_url = ''u'', authors = [''Ann'', ''Bob'']\<rparr>"
definition ex_repo :: repository where
  "ex_repo = \<lparr>path = ''/r'', collections = [ex_C1]\<rparr>"
definition ex_base_A :: base_entry where
  "ex_base_A = \<lparr>filename = ''a.py'', base_license_name = ''Odd'', base_license_url = ''v'',
                classids = [''A''], get_svg = None, get_png = None\<rparr>"
definition ex_draw_B :: base_entry where
  "ex_draw_B = \<lparr>filename = ''b'', base_license_name = ''LGPL'', base_license_url = ''u'',
                classids = [''B''], get_svg = None, get_png = Some ''/r/drawings/C1/b.png''\<rparr>"
definition ex_dbs :: databases where
  "ex_dbs = [(''freecad'', \<lparr>getbase = [(''A'', ex_base_A)]\<rparr>),
             (''openscad'', \<lparr>getbase = []\<rparr>),
             (''drawings'', \<lparr>getbase = [(''B'', ex_draw_B)]\<rparr>)]"
definition ex_env :: environment where
  "ex_env = \<lparr>check_license = (\<lambda>n u. n = ''LGPL''),
             os_join = (\<lambda>a b c. a @ ''/'' @ b @ ''/'' @ c),
             os_exists = (\<lambda>p. p = ''/r/freecad/C1'' \<or> p = ''/r/drawings/C1''),
             os_listdir = (\<lambda>p. if p = ''/r/freecad/C1'' then Inr [''a.py'', ''a.base'', ''x.txt'']
                                else if p = ''/r/drawings/C1'' then Inr [''b.png'', ''j.svg'']
                                else Inl (OSError p)),
             os_basename = posix_basename,
             os_splitext = posix_splitext\<rparr>"

text \<open>A second catalog: collection \<open>C2\<close> (classes \<open>B\<close>, \<open>A\<close>) before \<open>C1\<close>.\<close>

definition ex_C2 :: collection where
  "ex_C2 = \<lparr>coll_id = ''C2'', classes_by_ids = [ex_B, ex_A], coll_license_name = ''GPL'',
            coll_license_url = ''w'', authors = [''Cy'']\<rparr>"

definition ex_repo2 :: repository where
  "ex_repo2 = \<lparr>path = ''/r'', collections = [ex_C2, ex_C1]\<rparr>"

text \<open>A third catalog: the last collection \<open>C3\<close> has no classes; its author is Zed.\<close>

definition ex_C3 :: collection where
  "ex_C3 = \<lparr>coll_id = ''C3'', classes_by_ids = [], coll_license_name = ''GPL'',
            coll_license_url = ''w'', authors = [''Zed'']\<rparr>"

definition ex_repo3 :: repository where
  "ex_repo3 = \<lparr>path = ''/r'', collections = [ex_C1, ex_C3]\<rparr>"

section \<open>What the specification expects of MissingDrawing\<close>

text \<open>
  The rows in the order the specification gives: the repository's collection order, then
  the class order within each collection; one row (collection id, standard) for each
  class without an entry in the drawings database \<open>d\<close>.
\<close>

definition MissingDrawing_expected_rows :: "repository \<Rightarrow> database \<Rightarrow> row list" where
  "MissingDrawing_expected_rows repo d =
     concat (map (\<lambda>coll. map (\<lambda>cl. [S (coll_id coll), S (standard cl)])
                            (filter (\<lambda>cl. \<not> contains (cl_id cl) (getbase d)) (classes_by_ids coll)))
                 (collections repo))"

section \<open>What the specification calls registered files\<close>

text \<open>
  The filenames registered for a collection in a backend: the \<open>filename\<close> of the
  BaseEntry of each class of the collection that has one in the database \<open>db\<close>; for
  the drawings backend, the basenames of the PNG and SVG artifacts of each such entry.
\<close>

definition registered_files :: "databases \<Rightarrow> string \<Rightarrow> collection \<Rightarrow> string list" where
  "registered_files dbs db coll =
     (case map_of dbs db of
        None \<Rightarrow> []
      | Some d \<Rightarrow>
          concat (map (\<lambda>cl. case map_of (getbase d) (cl_id cl) of
                               None \<Rightarrow> []
                             | Some base \<Rightarrow> [filename base])
                      (classes_by_ids coll)))"

definition registered_drawing_files :: "environment \<Rightarrow> databases \<Rightarrow> collection \<Rightarrow> string list" where
  "registered_drawing_files env dbs coll =
     (case map_of dbs ''drawings'' of
        None \<Rightarrow> []
      | Some d \<Rightarrow>
          concat (map (\<lambda>cl. case map_of (getbase d) (cl_id cl) of
                               None \<Rightarrow> []
                             | Some drawing \<Rightarrow>
                                 (case get_png drawing of None \<Rightarrow> [] | Some p \<Rightarrow> [os_basename env p])
                                 @ (case get_svg drawing of None \<Rightarrow> [] | Some p \<Rightarrow> [os_basename env p]))
                      (classes_by_ids coll)))"

text \<open>
  A row of UnknownFile is accounted for when it names a file of the directory of some
  backend and collection that is neither a sidecar file nor registered there.
\<close>

definition stray_row :: "environment \<Rightarrow> repository \<Rightarrow> databases \<Rightarrow> row \<Rightarrow> bool" where
  "stray_row env repo dbs row =
     (\<exists>db \<in> set (map fst dbs). \<exists>coll \<in> set (collections repo). \<exists>name.
        row = [S name, S (os_join env (path repo) db (coll_id coll))]
        \<and> snd (os_splitext env name) \<noteq> ''.base''
        \<and> name \<notin> set (if db = ''drawings'' then registered_drawing_files env dbs coll
                         else registered_files dbs db coll))"

section \<open>Checks and what the specification expects of print_table\<close>

text \<open>
  A check is a table of one of the seven classes, as its constructor made it or after
  any number of calls of \<open>populate\<close> (completed or raised).
\<close>

inductive check_state :: "check_class \<Rightarrow> error_table \<Rightarrow> bool" where
  created: "check_state c (new c)"
| populated: "check_state c self \<Longrightarrow> check_state c (final_state (populate c env self repo dbs))"

text \<open>
  The width of column \<open>i\<close> in the words of the specification: the maximum of the
  length of the header label and of the length of the string of every cell in that
  column, plus two.
\<close>

definition spec_column_width :: "error_table \<Rightarrow> nat \<Rightarrow> nat" where
  "spec_column_width self i =
     Max (set (length (headers self ! i)
               # [length (str (row ! i)). row \<leftarrow> rows self, i < length row])) + 2"

definition spec_column_widths :: "error_table \<Rightarrow> nat list" where
  "spec_column_widths self = map (spec_column_width self) [0..<length (headers self)]"

text \<open>The text of a line between the boundaries of column \<open>i\<close>.\<close>

definition field_at :: "nat list \<Rightarrow> nat \<Rightarrow> string \<Rightarrow> string" where
  "field_at W i line = take (W ! i) (drop (sum_list (take i W)) line)"

text \<open>The example check: MissingDrawing after one run on the example catalog.\<close>

definition ex_table :: error_table where
  "ex_table = MissingDrawingTable_init\<lparr>rows := [[S ''C1'', S ''DIN1'']]\<rparr>"

section \<open>Notions used in the proofs\<close>

text \<open>
  What one row does to the widths in \<open>print_table\<close>, and tables whose rows have at
  most \<open>k\<close> cells.
\<close>

definition widen :: "row \<Rightarrow> nat list \<Rightarrow> nat list" where
  "widen row width =
     map (\<lambda>i. if i < length row then max (length (str (row ! i))) (width ! i) else width ! i)
       [0..<length width]"

definition fits :: "nat \<Rightarrow> row list \<Rightarrow> bool" where
  "fits k rs = (\<forall>row \<in> set rs. length row \<le> k)"

section \<open>Loops that only append\<close>

text \<open>A loop whose body appends \<open>g x\<close> to the state appends all of them in order.\<close>

lemma for_each_append:
  assumes "\<And>x s. x \<in> set xs \<Longrightarrow> body x s = Inr (s @ g x)"
  shows "for_each xs body s = Inr (s @ concat (map g xs))"
  using assms by (induction xs arbitrary: s) simp_all

lemma for_each_nested_append:
  assumes "\<And>x y s. x \<in> set xs \<Longrightarrow> y \<in> set (inner x) \<Longrightarrow> body x y s = Inr (s @ g x y)"
  shows "for_each xs (\<lambda>x. for_each (inner x) (body x)) s =
         Inr (s @ concat (map (\<lambda>x. concat (map (g x) (inner x))) xs))"
  by (rule for_each_append) (simp add: assms for_each_append)

lemma concat_map_if_filter:
  "concat (map (\<lambda>x. if P x then [f x] else []) xs) = map f (filter P xs)"
  by (induction xs) simp_all

lemma nested_filter_rows:
  "concat (map (\<lambda>coll. concat (map (\<lambda>cl. if P coll cl then [f coll cl] else []) (classes_by_ids coll))) cs)
   = map (\<lambda>(coll, cl). f coll cl) (filter (\<lambda>(coll, cl). P coll cl) (concat (map (\<lambda>coll. map (Pair coll) (classes_by_ids coll)) cs)))"
  by (induction cs) (simp_all add: concat_map_if_filter filter_map map_concat comp_def)

lemma class_loops_append:
  assumes "\<And>coll cl s. body coll cl s = Inr (s @ (if P coll cl then [f coll cl] else []))"
  shows "for_each (collections repo) (\<lambda>coll. for_each (classes_by_ids coll) (body coll)) s =
         Inr (s @ map (\<lambda>(coll, cl). f coll cl) (filter (\<lambda>(coll, cl). P coll cl) (repo_classes repo)))"
  unfolding repo_classes_def nested_filter_rows [symmetric]
  by (rule for_each_nested_append) (rule assms)

lemma getitem_Some: "map_of d k = Some v \<Longrightarrow> getitem d k = Inr v"
  by (simp add: getitem_def)

section \<open>MissingBaseTable.populate\<close>

lemma MissingBase_body_eq:
  assumes "map_of dbs ''freecad'' = Some fc" and "map_of dbs ''openscad'' = Some osc"
  shows "MissingBase_body dbs coll cl s =
     Inr (s @ (if \<not> (contains (cl_id cl) (getbase fc) \<and> contains (cl_id cl) (getbase osc))
               then [[S (cl_id cl), S (coll_id coll), S (standard cl),
                      B (contains (cl_id cl) (getbase fc)), B (contains (cl_id cl) (getbase osc))]]
               else []))"
  using assms by (auto simp add: MissingBase_body_def getitem_Some py_and_def Let_def)

text \<open>
  C1 (as amended). With both geometry databases "freecad" and "openscad" present,
  MissingBaseTable.populate appends, in collection order and then class order, one row
  (class id, collection id, standard, in-freecad, in-openscad) for exactly the classes
  whose id is absent from at least one of the two base maps; a class with a BaseEntry
  in both gets no row.
\<close>

theorem MissingBase_flags_unless_both_present:
  assumes "map_of dbs ''freecad'' = Some fc" and "map_of dbs ''openscad'' = Some osc"
  shows "MissingBaseTable_populate self repo dbs =
     Inr (self\<lparr>rows := rows self @
        map (\<lambda>(coll, cl). [S (cl_id cl), S (coll_id coll), S (standard cl),
                            B (contains (cl_id cl) (getbase fc)), B (contains (cl_id cl) (getbase osc))])
          (filter (\<lambda>(coll, cl). \<not> (contains (cl_id cl) (getbase fc) \<and> contains (cl_id cl) (getbase osc)))
             (repo_classes repo))\<rparr>)"
  unfolding MissingBaseTable_populate_def
  by (subst class_loops_append [where body = "MissingBase_body dbs", OF MissingBase_body_eq [OF assms]])
     (simp add: with_rows_def)

text \<open>
  The theorem at the example catalog: class \<open>A\<close> (in "freecad" only) and class \<open>B\<close>
  (in neither) are both flagged.
\<close>

theorem MissingBase_flags_unless_both_present_witness:
  "map_of ex_dbs ''freecad'' = Some \<lparr>getbase = [(''A'', ex_base_A)]\<rparr>
   \<and> map_of ex_dbs ''openscad'' = Some \<lparr>getbase = []\<rparr>
   \<and> MissingBaseTable_populate MissingBaseTable_init ex_repo ex_dbs =
       Inr (MissingBaseTable_init\<lparr>rows :=
              [[S ''A'', S ''C1'', S ''DIN1'', B True, B False],
               [S ''B'', S ''C1'', S ''ISO2'', B False, B False]]\<rparr>)"
  using MissingBase_flags_unless_both_present
          [of ex_dbs "\<lparr>getbase = [(''A'', ex_base_A)]\<rparr>" "\<lparr>getbase = []\<rparr>"
              MissingBaseTable_init ex_repo]
  by (simp add: ex_dbs_def repo_classes_def ex_repo_def ex_C1_def ex_A_def ex_B_def contains_def
        MissingBaseTable_init_def ErrorTable_init_def)

text \<open>
  C1 as stated fails: class \<open>A\<close> of collection \<open>C1\<close> has a BaseEntry in "freecad",
  and populate appends a row for it (its first row).
\<close>

theorem MissingBase_flags_class_with_one_backend:
  "contains ''A'' (getbase \<lparr>getbase = [(''A'', ex_base_A)]\<rparr>)
   \<and> map_of ex_dbs ''freecad'' = Some \<lparr>getbase = [(''A'', ex_base_A)]\<rparr>
   \<and> ex_A \<in> set (classes_by_ids ex_C1) \<and> ex_C1 \<in> set (collections ex_repo)
   \<and> cl_id ex_A = ''A''
   \<and> MissingBaseTable_populate MissingBaseTable_init ex_repo ex_dbs =
       Inr (MissingBaseTable_init\<lparr>rows :=
              [[S ''A'', S ''C1'', S ''DIN1'', B True, B False],
               [S ''B'', S ''C1'', S ''ISO2'', B False, B False]]\<rparr>)"
  by (simp add: MissingBaseTable_populate_def MissingBase_body_def getitem_def contains_def
        py_and_def with_rows_def MissingBaseTable_init_def ErrorTable_init_def
        ex_repo_def ex_C1_def ex_A_def ex_B_def ex_dbs_def ex_base_A_def)

section \<open>MissingCommonParametersTable.populate\<close>

lemma MissingCommonParameters_body_eq:
  "MissingCommonParameters_body coll cl s =
     Inr (s @ (if common (parameters cl) = []
               then [[S (cl_id cl), S (coll_id coll), S (standard cl)]] else []))"
  by (simp add: MissingCommonParameters_body_def)

text \<open>
  C7. MissingCommonParametersTable.populate appends, in collection order and then class
  order, exactly one row (class id, collection id, standard) for each class whose
  common-parameter set is empty, and no row for a class with a non-empty set. It reads
  no database and never raises.
\<close>

theorem MissingCommonParameters_flags_empty_common:
  "MissingCommonParametersTable_populate self repo dbs =
     Inr (self\<lparr>rows := rows self @
        map (\<lambda>(coll, cl). [S (cl_id cl), S (coll_id coll), S (standard cl)])
          (filter (\<lambda>(coll, cl). common (parameters cl) = []) (repo_classes repo))\<rparr>)"
  unfolding MissingCommonParametersTable_populate_def
  by (subst class_loops_append [where body = MissingCommonParameters_body,
        OF MissingCommonParameters_body_eq])
     (simp add: with_rows_def)

text \<open>At the example catalog only class \<open>A\<close> (no common parameters) is flagged.\<close>

theorem MissingCommonParameters_flags_empty_common_witness:
  "common (parameters ex_A) = [] \<and> common (parameters ex_B) \<noteq> []
   \<and> MissingCommonParametersTable_populate MissingCommonParametersTable_init ex_repo ex_dbs =
      Inr (MissingCommonParametersTable_init\<lparr>rows := [[S ''A'', S ''C1'', S ''DIN1'']]\<rparr>)"
  using MissingCommonParameters_flags_empty_common
          [of MissingCommonParametersTable_init ex_repo ex_dbs]
  by (simp add: repo_classes_def ex_repo_def ex_C1_def ex_A_def ex_B_def
        MissingCommonParametersTable_init_def ErrorTable_init_def)

section \<open>MissingDrawingTable.populate\<close>

lemma MissingDrawing_body_eq:
  assumes "map_of dbs ''drawings'' = Some d"
  shows "MissingDrawing_body dbs coll cl s =
     Inr (s @ (if \<not> contains (cl_id cl) (getbase d)
               then [[S (coll_id coll), S (standard cl)]] else []))"
  using assms by (simp add: MissingDrawing_body_def getitem_Some)

lemma MissingDrawing_loops:
  assumes "map_of dbs ''drawings'' = Some d"
  shows "for_each (collections repo)
           (\<lambda>coll. for_each (classes_by_ids coll) (MissingDrawing_body dbs coll)) s =
         Inr (s @ map (\<lambda>(coll, cl). [S (coll_id coll), S (standard cl)])
                    (filter (\<lambda>(coll, cl). \<not> contains (cl_id cl) (getbase d)) (repo_classes repo)))"
  by (rule class_loops_append [where body = "MissingDrawing_body dbs",
        OF MissingDrawing_body_eq [OF assms]])

text \<open>
  C3. With the "drawings" database present, MissingDrawingTable.populate appends exactly
  one row for each class whose id is not a key of that database, and the row holds only
  the collection id and the standard: two cells, no class id, under the three declared
  headers "Class id", "Collection", "Standards".
\<close>

theorem MissingDrawing_row_omits_class_id:
  assumes "map_of dbs ''drawings'' = Some d"
  shows "MissingDrawingTable_populate self repo dbs =
     Inr (self\<lparr>rows := rows self @
        map (\<lambda>(coll, cl). [S (coll_id coll), S (standard cl)])
          (filter (\<lambda>(coll, cl). \<not> contains (cl_id cl) (getbase d)) (repo_classes repo))\<rparr>)
     \<and> get_headers MissingDrawingTable_init = [''Class id'', ''Collection'', ''Standards'']"
  by (simp add: MissingDrawingTable_populate_def MissingDrawing_loops [OF assms] with_rows_def
        get_headers_def MissingDrawingTable_init_def ErrorTable_init_def)

text \<open>At the example catalog class \<open>A\<close> has no drawing: its row is (C1, DIN1).\<close>

theorem MissingDrawing_row_omits_class_id_witness:
  "map_of ex_dbs ''drawings'' = Some \<lparr>getbase = [(''B'', ex_draw_B)]\<rparr>
   \<and> MissingDrawingTable_populate MissingDrawingTable_init ex_repo ex_dbs =
      Inr (MissingDrawingTable_init\<lparr>rows := [[S ''C1'', S ''DIN1'']]\<rparr>)
   \<and> get_headers MissingDrawingTable_init = [''Class id'', ''Collection'', ''Standards'']"
  using MissingDrawing_row_omits_class_id
          [of ex_dbs "\<lparr>getbase = [(''B'', ex_draw_B)]\<rparr>" MissingDrawingTable_init ex_repo]
  by (simp add: ex_dbs_def repo_classes_def ex_repo_def ex_C1_def ex_A_def ex_B_def contains_def
        MissingDrawingTable_init_def ErrorTable_init_def)

lemma MissingDrawing_rows_eq:
  "map (\<lambda>(coll, cl). [S (coll_id coll), S (standard cl)])
       (filter (\<lambda>(coll, cl). \<not> contains (cl_id cl) (getbase d)) (repo_classes repo))
   = MissingDrawing_expected_rows repo d"
  unfolding MissingDrawing_expected_rows_def repo_classes_def
  by (induction "collections repo" arbitrary: repo)
     (simp_all add: map_concat filter_concat comp_def filter_map)


text \<open>
  C8. Every run of MissingDrawing against the same catalog and databases produces the
  same rows in the same order, the order of the collections and then of the classes of
  each collection: a run on a fresh table yields them, a run on any table appends them,
  and so does a second run on the same table (the rows accumulate).
\<close>

theorem MissingDrawing_runs_append_same_rows:
  assumes "map_of dbs ''drawings'' = Some d"
  shows "MissingDrawingTable_populate MissingDrawingTable_init repo dbs =
           Inr (MissingDrawingTable_init\<lparr>rows := MissingDrawing_expected_rows repo d\<rparr>)
       \<and> MissingDrawingTable_populate self repo dbs =
           Inr (self\<lparr>rows := rows self @ MissingDrawing_expected_rows repo d\<rparr>)
       \<and> MissingDrawingTable_populate (self\<lparr>rows := rows self @ MissingDrawing_expected_rows repo d\<rparr>) repo dbs =
           Inr (self\<lparr>rows := rows self @ MissingDrawing_expected_rows repo d
                                @ MissingDrawing_expected_rows repo d\<rparr>)"
  by (simp add: MissingDrawingTable_populate_def MissingDrawing_loops [OF assms] with_rows_def
        MissingDrawing_rows_eq MissingDrawingTable_init_def ErrorTable_init_def)

text \<open>Two runs on the catalog with collections \<open>C2\<close>, \<open>C1\<close>.\<close>

theorem MissingDrawing_runs_append_same_rows_witness:
  "map_of ex_dbs ''drawings'' = Some \<lparr>getbase = [(''B'', ex_draw_B)]\<rparr>
   \<and> MissingDrawingTable_populate MissingDrawingTable_init ex_repo2 ex_dbs =
       Inr (MissingDrawingTable_init\<lparr>rows := [[S ''C2'', S ''DIN1''], [S ''C1'', S ''DIN1'']]\<rparr>)
   \<and> MissingDrawingTable_populate
         (MissingDrawingTable_init\<lparr>rows := [[S ''C2'', S ''DIN1''], [S ''C1'', S ''DIN1'']]\<rparr>)
         ex_repo2 ex_dbs =
       Inr (MissingDrawingTable_init\<lparr>rows := [[S ''C2'', S ''DIN1''], [S ''C1'', S ''DIN1''],
                                                [S ''C2'', S ''DIN1''], [S ''C1'', S ''DIN1'']]\<rparr>)"
proof -
  have h: "map_of ex_dbs ''drawings'' = Some \<lparr>getbase = [(''B'', ex_draw_B)]\<rparr>"
    by (simp add: ex_dbs_def)
  have r: "MissingDrawing_expected_rows ex_repo2 \<lparr>getbase = [(''B'', ex_draw_B)]\<rparr> =
             [[S ''C2'', S ''DIN1''], [S ''C1'', S ''DIN1'']]"
    by (simp add: MissingDrawing_expected_rows_def ex_repo2_def ex_C1_def ex_C2_def ex_A_def
          ex_B_def contains_def)
  have i: "rows MissingDrawingTable_init = []"
    by (simp add: MissingDrawingTable_init_def ErrorTable_init_def)
  show ?thesis
    using MissingDrawing_runs_append_same_rows [OF h, of ex_repo2 MissingDrawingTable_init] h
    by (simp add: r i)
qed

section \<open>UnknownClassTable.populate\<close>

text \<open>
  C2. The class body of UnknownClassTable defines no \<open>populate\<close> (the row-collecting
  function is a local of \<open>__init__\<close>), so the inherited \<open>ErrorTable.populate\<close> runs:
  for every catalog and database set the table is returned unchanged, and a new
  instance keeps an empty row list.
\<close>

theorem UnknownClass_populate_is_inherited_noop:
  "class_populate UnknownClassTable = None
   \<and> populate UnknownClassTable env self repo dbs = Inr self
   \<and> get_table (final_state (populate UnknownClassTable env (new UnknownClassTable) repo dbs)) = []"
  by (simp add: populate_def ErrorTable_populate_def final_state_def get_table_def
        UnknownClassTable_init_def ErrorTable_init_def)

text \<open>
  On a catalog without classes the local function of \<open>__init__\<close> would collect two
  rows; \<open>populate\<close> collects none.
\<close>

theorem UnknownClass_populate_is_inherited_noop_witness:
  "UnknownClassTable_init_populate UnknownClassTable_init (ex_repo\<lparr>collections := []\<rparr>) ex_dbs =
     Inr (UnknownClassTable_init\<lparr>rows := [[S ''A'', S ''freecad''], [S ''B'', S ''drawings'']]\<rparr>)
   \<and> populate UnknownClassTable ex_env UnknownClassTable_init (ex_repo\<lparr>collections := []\<rparr>) ex_dbs =
     Inr UnknownClassTable_init
   \<and> get_table (final_state (populate UnknownClassTable ex_env (new UnknownClassTable)
        (ex_repo\<lparr>collections := []\<rparr>) ex_dbs)) = []"
  using UnknownClass_populate_is_inherited_noop
          [of ex_env UnknownClassTable_init "ex_repo\<lparr>collections := []\<rparr>" ex_dbs]
  by (simp add: UnknownClassTable_init_populate_def repo_classes_def getitem_def with_rows_def
        ex_repo_def ex_dbs_def ex_base_A_def ex_draw_B_def UnknownClassTable_init_def ErrorTable_init_def
        final_state_def get_table_def)

section \<open>UnsupportedLicenseTable.populate\<close>

text \<open>
  After the first loop the variable \<open>coll\<close> holds the last collection, or is still
  unbound when there is none.
\<close>

lemma UnsupportedLicense_first_loop:
  "for_each cs (UnsupportedLicense_coll_body env) (v, rs) =
     Inr (if cs = [] then v else Some (last cs),
          rs @ map (\<lambda>c. [S ''Collection'', S (coll_id c), S (coll_license_name c),
                          S (coll_license_url c), S (str_join '','' (authors c))])
                 (filter (\<lambda>c. \<not> check_license env (coll_license_name c) (coll_license_url c)) cs))"
  by (induction cs arbitrary: v rs) (simp_all add: UnsupportedLicense_coll_body_def)

text \<open>The loop over the entries of one database, with \<open>coll\<close> bound and unbound.\<close>

lemma UnsupportedLicense_bases_bound:
  "for_each items (UnsupportedLicense_base_body env db) (Some c, rs) =
     Inr (Some c,
          rs @ map (\<lambda>(id, base). [S db, S id, S (base_license_name base),
                                  S (base_license_url base), S (str_join '','' (authors c))])
                 (filter (\<lambda>(id, base). \<not> check_license env (base_license_name base) (base_license_url base))
                    items))"
  by (induction items arbitrary: rs)
     (simp_all add: UnsupportedLicense_base_body_def split_beta Let_def)

lemma UnsupportedLicense_bases_unbound:
  "for_each items (UnsupportedLicense_base_body env db) (None, rs) =
     (if \<exists>(id, base) \<in> set items. \<not> check_license env (base_license_name base) (base_license_url base)
      then Inl (UnboundLocalError ''coll'', (None, rs))
      else Inr (None, rs))"
  by (induction items) (auto simp add: UnsupportedLicense_base_body_def split_beta Let_def)

text \<open>The loop over the databases.\<close>

lemma UnsupportedLicense_dbs_bound:
  assumes "\<And>db d. (db, d) \<in> set ks \<Longrightarrow> map_of dbs db = Some d"
  shows "for_each (map fst ks)
           (\<lambda>db st. case getitem dbs db of
                Inl e \<Rightarrow> Inl (e, st)
              | Inr d \<Rightarrow> for_each (getbase d) (UnsupportedLicense_base_body env db) st)
           (Some c, rs) =
     Inr (Some c,
          rs @ concat (map (\<lambda>(db, d).
                 map (\<lambda>(id, base). [S db, S id, S (base_license_name base),
                                     S (base_license_url base), S (str_join '','' (authors c))])
                   (filter (\<lambda>(id, base). \<not> check_license env (base_license_name base) (base_license_url base))
                      (getbase d))) ks))"
  using assms
proof (induction ks arbitrary: rs)
  case Nil
  then show ?case by simp
next
  case (Cons k ks)
  obtain db d where k: "k = (db, d)" by (cases k)
  have "map_of dbs db = Some d" using Cons.prems k by simp
  then have g: "getitem dbs db = Inr d" by (rule getitem_Some)
  show ?case
    using Cons.IH Cons.prems
    by (simp add: k g UnsupportedLicense_bases_bound)
qed

lemma UnsupportedLicense_dbs_unbound:
  assumes "\<And>db d. (db, d) \<in> set ks \<Longrightarrow> map_of dbs db = Some d"
  shows "for_each (map fst ks)
           (\<lambda>db st. case getitem dbs db of
                Inl e \<Rightarrow> Inl (e, st)
              | Inr d \<Rightarrow> for_each (getbase d) (UnsupportedLicense_base_body env db) st)
           (None, rs) =
     (if \<exists>(db, d) \<in> set ks. \<exists>(id, base) \<in> set (getbase d).
            \<not> check_license env (base_license_name base) (base_license_url base)
      then Inl (UnboundLocalError ''coll'', (None, rs))
      else Inr (None, rs))"
  using assms
proof (induction ks)
  case Nil
  then show ?case by simp
next
  case (Cons k ks)
  obtain db d where k: "k = (db, d)" by (cases k)
  have "map_of dbs db = Some d" using Cons.prems k by simp
  then have g: "getitem dbs db = Inr d" by (rule getitem_Some)
  show ?case
    using Cons.IH Cons.prems
    by (simp add: k g UnsupportedLicense_bases_unbound)
qed

lemma distinct_keys_lookup:
  "distinct (map fst dbs) \<Longrightarrow> (db, d) \<in> set dbs \<Longrightarrow> map_of dbs db = Some d"
  by simp

text \<open>
  C4. When the repository has collections, UnsupportedLicenseTable.populate appends the
  rows of the collections that fail the License Validator and then, for every database
  and every BaseEntry of it that fails, one row (database name, id, license name,
  license url, authors) whose Authors field is the comma-joined author list of the last
  collection of the repository, the value the loop variable \<open>coll\<close> kept from the first
  loop: it does not depend on the BaseEntry.
\<close>

theorem UnsupportedLicense_authors_from_last_collection:
  assumes "distinct (map fst dbs)" and "collections repo \<noteq> []"
  shows "UnsupportedLicenseTable_populate env self repo dbs =
     Inr (self\<lparr>rows := rows self
        @ map (\<lambda>c. [S ''Collection'', S (coll_id c), S (coll_license_name c),
                     S (coll_license_url c), S (str_join '','' (authors c))])
            (filter (\<lambda>c. \<not> check_license env (coll_license_name c) (coll_license_url c))
               (collections repo))
        @ concat (map (\<lambda>(db, d).
            map (\<lambda>(id, base). [S db, S id, S (base_license_name base), S (base_license_url base),
                                S (str_join '','' (authors (last (collections repo))))])
              (filter (\<lambda>(id, base). \<not> check_license env (base_license_name base) (base_license_url base))
                 (getbase d))) dbs)\<rparr>)"
  using assms(2)
  by (simp add: UnsupportedLicenseTable_populate_def UnsupportedLicense_loops_def
        UnsupportedLicense_first_loop
        UnsupportedLicense_dbs_bound [OF distinct_keys_lookup [OF assms(1)]])

text \<open>
  The entry of class \<open>A\<close> (a class of \<open>C1\<close>, authors Ann and Bob) is reported with
  the author of the last collection \<open>C3\<close>.
\<close>

theorem UnsupportedLicense_authors_from_last_collection_witness:
  "distinct (map fst ex_dbs) \<and> collections ex_repo3 \<noteq> []
   \<and> ex_A \<in> set (classes_by_ids ex_C1) \<and> authors ex_C1 = [''Ann'', ''Bob'']
   \<and> UnsupportedLicenseTable_populate ex_env UnsupportedLicenseTable_init ex_repo3 ex_dbs =
       Inr (UnsupportedLicenseTable_init\<lparr>rows :=
              [[S ''Collection'', S ''C3'', S ''GPL'', S ''w'', S ''Zed''],
               [S ''freecad'', S ''A'', S ''Odd'', S ''v'', S ''Zed'']]\<rparr>)"
proof -
  have d: "distinct (map fst ex_dbs)"
    by (simp add: ex_dbs_def)
  have c: "collections ex_repo3 \<noteq> []"
    by (simp add: ex_repo3_def)
  have i: "rows UnsupportedLicenseTable_init = []"
    by (simp add: UnsupportedLicenseTable_init_def ErrorTable_init_def)
  show ?thesis
    using UnsupportedLicense_authors_from_last_collection
            [OF d c, of ex_env UnsupportedLicenseTable_init]
    by (simp add: i ex_dbs_def ex_repo3_def ex_C1_def ex_C3_def ex_A_def ex_B_def ex_env_def
          ex_base_A_def ex_draw_B_def)
qed

text \<open>
  C10. If the repository has no collection and some BaseEntry of some database fails the
  License Validator, UnsupportedLicenseTable.populate raises UnboundLocalError for
  \<open>coll\<close> (no row has been appended); if the repository has at least one collection,
  populate completes.
\<close>

theorem UnsupportedLicense_unbound_without_collections:
  assumes "distinct (map fst dbs)"
  shows "(collections repo = [] \<and>
          (\<exists>(db, d) \<in> set dbs. \<exists>(id, base) \<in> set (getbase d).
              \<not> check_license env (base_license_name base) (base_license_url base))
          \<longrightarrow> UnsupportedLicenseTable_populate env self repo dbs =
                Inl (UnboundLocalError ''coll'', self))
       \<and> (collections repo \<noteq> []
          \<longrightarrow> (\<exists>t. UnsupportedLicenseTable_populate env self repo dbs = Inr t))"
  by (simp add: UnsupportedLicenseTable_populate_def UnsupportedLicense_loops_def
        UnsupportedLicense_first_loop
        UnsupportedLicense_dbs_bound [OF distinct_keys_lookup [OF assms]]
        UnsupportedLicense_dbs_unbound [OF distinct_keys_lookup [OF assms]])


text \<open>The example databases hold a failing entry: without collections the run raises.\<close>

theorem UnsupportedLicense_unbound_without_collections_witness:
  "distinct (map fst ex_dbs)
   \<and> collections (ex_repo\<lparr>collections := []\<rparr>) = []
   \<and> (''freecad'', \<lparr>getbase = [(''A'', ex_base_A)]\<rparr>) \<in> set ex_dbs
   \<and> \<not> check_license ex_env (base_license_name ex_base_A) (base_license_url ex_base_A)
   \<and> UnsupportedLicenseTable_populate ex_env UnsupportedLicenseTable_init
         (ex_repo\<lparr>collections := []\<rparr>) ex_dbs =
       Inl (UnboundLocalError ''coll'', UnsupportedLicenseTable_init)
   \<and> collections ex_repo \<noteq> []
   \<and> (\<exists>t. UnsupportedLicenseTable_populate ex_env UnsupportedLicenseTable_init ex_repo ex_dbs = Inr t)"
proof -
  have d: "distinct (map fst ex_dbs)"
    by (simp add: ex_dbs_def)
  have m: "(''freecad'', \<lparr>getbase = [(''A'', ex_base_A)]\<rparr>) \<in> set ex_dbs"
    by (simp add: ex_dbs_def)
  have f: "\<not> check_license ex_env (base_license_name ex_base_A) (base_license_url ex_base_A)"
    by (simp add: ex_env_def ex_base_A_def)
  have e: "\<exists>(db, d) \<in> set ex_dbs. \<exists>(id, base) \<in> set (getbase d).
             \<not> check_license ex_env (base_license_name base) (base_license_url base)"
    using m f by force
  have c: "collections ex_repo \<noteq> []"
    by (simp add: ex_repo_def)
  show ?thesis
    using UnsupportedLicense_unbound_without_collections
            [OF d, of "ex_repo\<lparr>collections := []\<rparr>" ex_env UnsupportedLicenseTable_init]
          UnsupportedLicense_unbound_without_collections
            [OF d, of ex_repo ex_env UnsupportedLicenseTable_init]
          d m f e c
    by simp
qed

section \<open>UnknownFileTable.populate\<close>

text \<open>Loops whose body leaves the state alone, and loops that keep an invariant.\<close>

lemma for_each_skip:
  assumes "\<And>x s. x \<in> set xs \<Longrightarrow> body x s = Inr s"
  shows "for_each xs body s = Inr s"
  using assms by (induction xs) simp_all

lemma for_each_invariant:
  assumes "I s" and "\<And>x s. x \<in> set xs \<Longrightarrow> I s \<Longrightarrow> I (final_state (body x s))"
  shows "I (final_state (for_each xs body s))"
  using assms
proof (induction xs arbitrary: s)
  case Nil
  then show ?case by (simp add: final_state_def)
next
  case (Cons x xs)
  have step: "I (final_state (body x s))"
    using Cons.prems by simp
  show ?case
  proof (cases "body x s")
    case (Inl a)
    then show ?thesis using step by (simp add: final_state_def)
  next
    case (Inr s')
    then have "I s'" using step by (simp add: final_state_def)
    then have "I (final_state (for_each xs body s'))"
      using Cons.prems(2) by (intro Cons.IH) simp_all
    then show ?thesis using Inr by simp
  qed
qed

text \<open>On a listing without duplicates, removing the known files is a filter.\<close>

lemma remove_known_filter:
  "distinct files \<Longrightarrow> remove_known name files = filter (\<lambda>f. f \<noteq> name) files"
  by (auto simp add: remove_known_def distinct_remove1_removeAll removeAll_filter_not_eq
        intro!: filter_cong filter_id_conv [THEN iffD2, symmetric])

lemma for_each_filter:
  assumes "\<And>x fs. distinct fs \<Longrightarrow> body x fs = Inr (filter (\<lambda>f. f \<notin> set (g x)) fs)"
    and "distinct fs"
  shows "for_each xs body fs = Inr (filter (\<lambda>f. f \<notin> set (concat (map g xs))) fs)"
  using assms(2)
proof (induction xs arbitrary: fs)
  case Nil
  then show ?case by simp
next
  case (Cons x xs)
  have "distinct (filter (\<lambda>f. f \<notin> set (g x)) fs)"
    using Cons.prems by simp
  from Cons.IH [OF this] show ?case
    using Cons.prems by (simp add: assms(1) conj_commute)
qed

lemma UnknownFile_known_body_filter:
  assumes "map_of dbs db = Some d" and "distinct files"
  shows "UnknownFile_known_body dbs db cl files =
     Inr (filter (\<lambda>f. f \<notin> set (case map_of (getbase d) (cl_id cl) of
                                  None \<Rightarrow> [] | Some base \<Rightarrow> [filename base])) files)"
  using assms
  by (auto simp add: UnknownFile_known_body_def getitem_def contains_def remove_known_filter
        split: option.splits)

lemma UnknownFile_drawing_body_filter:
  assumes "map_of dbs ''drawings'' = Some d" and "distinct files"
  shows "UnknownFile_drawing_body env dbs cl files =
     Inr (filter (\<lambda>f. f \<notin> set (case map_of (getbase d) (cl_id cl) of
                                  None \<Rightarrow> []
                                | Some drawing \<Rightarrow>
                                    (case get_png drawing of None \<Rightarrow> [] | Some p \<Rightarrow> [os_basename env p])
                                    @ (case get_svg drawing of None \<Rightarrow> [] | Some p \<Rightarrow> [os_basename env p])))
            files)"
  using assms
  by (auto simp add: UnknownFile_drawing_body_def getitem_def contains_def remove_known_filter
        Let_def split: option.splits)

lemma UnknownFile_known_loop:
  assumes "distinct files"
    and "for_each (classes_by_ids coll) (UnknownFile_known_body dbs db) files = Inr files'"
  shows "files' = filter (\<lambda>f. f \<notin> set (registered_files dbs db coll)) files"
proof (cases "map_of dbs db")
  case None
  then have "classes_by_ids coll = []"
    using assms(2) by (cases "classes_by_ids coll") (simp_all add: UnknownFile_known_body_def getitem_def)
  then show ?thesis using assms(2) None by (simp add: registered_files_def)
next
  case (Some d)
  show ?thesis
    using assms(2)
    by (simp add: for_each_filter [where body = "UnknownFile_known_body dbs db",
          OF UnknownFile_known_body_filter [OF Some] assms(1)] registered_files_def Some)
qed

lemma UnknownFile_drawing_loop:
  assumes "distinct files"
    and "for_each (classes_by_ids coll) (UnknownFile_drawing_body env dbs) files = Inr files'"
  shows "files' = filter (\<lambda>f. f \<notin> set (registered_drawing_files env dbs coll)) files"
proof (cases "map_of dbs ''drawings''")
  case None
  then have "classes_by_ids coll = []"
    using assms(2) by (cases "classes_by_ids coll") (simp_all add: UnknownFile_drawing_body_def getitem_def)
  then show ?thesis using assms(2) None by (simp add: registered_drawing_files_def)
next
  case (Some d)
  show ?thesis
    using assms(2)
    by (simp add: for_each_filter [where body = "UnknownFile_drawing_body env dbs",
          OF UnknownFile_drawing_body_filter [OF Some] assms(1)] registered_drawing_files_def Some)
qed

lemma UnknownFile_left_loop:
  "for_each files (UnknownFile_left_body env p) rs =
     Inr (rs @ map (\<lambda>name. [S name, S p])
                 (filter (\<lambda>name. snd (os_splitext env name) \<noteq> ''.base'') files))"
  by (induction files arbitrary: rs) (simp_all add: UnknownFile_left_body_def)


lemma final_state_with_rows:
  "final_state (with_rows self r) = self\<lparr>rows := final_state r\<rparr>"
  by (cases r) (auto simp add: final_state_def with_rows_def)

text \<open>The rows one collection contributes in one pass.\<close>

lemma UnknownFile_coll_body_rows:
  assumes dist: "\<And>p files. os_listdir env p = Inr files \<Longrightarrow> distinct files"
    and known: "\<And>files files'. distinct files \<Longrightarrow>
                  for_each (classes_by_ids coll) known files = Inr files' \<Longrightarrow>
                  files' = filter (\<lambda>f. f \<notin> set regs) files"
  shows "\<exists>new. final_state (UnknownFile_coll_body env repo db known coll rs) = rs @ new
           \<and> (\<forall>row \<in> set new. \<exists>name.
                 row = [S name, S (os_join env (path repo) db (coll_id coll))]
                 \<and> snd (os_splitext env name) \<noteq> ''.base'' \<and> name \<notin> set regs)"
proof -
  let ?p = "os_join env (path repo) db (coll_id coll)"
  show ?thesis
  proof (cases "os_exists env ?p")
    case False
    then show ?thesis
      by (simp add: UnknownFile_coll_body_def final_state_def)
  next
    case True
    show ?thesis
    proof (cases "os_listdir env ?p")
      case (Inl e)
      then show ?thesis using True
        by (simp add: UnknownFile_coll_body_def final_state_def)
    next
      case (Inr listing)
      then have d: "distinct listing" by (rule dist)
      show ?thesis
      proof (cases "for_each (classes_by_ids coll) known listing")
        case (Inl a)
        then show ?thesis using True Inr
          by (cases a) (simp add: UnknownFile_coll_body_def final_state_def)
      next
        case inner: (Inr files')
        have f: "files' = filter (\<lambda>f. f \<notin> set regs) listing"
          using d inner by (rule known)
        have "final_state (UnknownFile_coll_body env repo db known coll rs) =
                rs @ map (\<lambda>name. [S name, S ?p])
                  (filter (\<lambda>name. snd (os_splitext env name) \<noteq> ''.base'') files')"
          using True Inr inner
          by (simp add: UnknownFile_coll_body_def UnknownFile_left_loop final_state_def)
        then show ?thesis
          using f by auto
      qed
    qed
  qed
qed

lemma stray_row_step:
  assumes "\<exists>new. rs' = rs @ new \<and> (\<forall>row \<in> set new. stray_row env repo dbs row)"
    and "\<exists>new. rs = rows0 @ new \<and> (\<forall>row \<in> set new. stray_row env repo dbs row)"
  shows "\<exists>new. rs' = rows0 @ new \<and> (\<forall>row \<in> set new. stray_row env repo dbs row)"
proof -
  obtain n1 where n1: "rs' = rs @ n1" "\<forall>row \<in> set n1. stray_row env repo dbs row"
    using assms(1) by blast
  obtain n0 where n0: "rs = rows0 @ n0" "\<forall>row \<in> set n0. stray_row env repo dbs row"
    using assms(2) by blast
  have "rs' = rows0 @ (n0 @ n1)" using n0 n1 by simp
  moreover have "\<forall>row \<in> set (n0 @ n1). stray_row env repo dbs row" using n0 n1 by auto
  ultimately show ?thesis by blast
qed

lemma UnknownFile_generic_coll_stray:
  assumes dist: "\<And>p files. os_listdir env p = Inr files \<Longrightarrow> distinct files"
    and db: "db \<in> set (map fst dbs)" "db \<noteq> ''drawings''" and coll: "coll \<in> set (collections repo)"
  shows "\<exists>new. final_state (UnknownFile_coll_body env repo db (UnknownFile_known_body dbs db) coll rs)
                 = rs @ new \<and> (\<forall>row \<in> set new. stray_row env repo dbs row)"
proof -
  have k: "\<And>files files'. distinct files \<Longrightarrow>
              for_each (classes_by_ids coll) (UnknownFile_known_body dbs db) files = Inr files' \<Longrightarrow>
              files' = filter (\<lambda>f. f \<notin> set (registered_files dbs db coll)) files"
    by (rule UnknownFile_known_loop)
  have "\<exists>new. final_state (UnknownFile_coll_body env repo db (UnknownFile_known_body dbs db) coll rs) = rs @ new
           \<and> (\<forall>row \<in> set new. \<exists>name.
                 row = [S name, S (os_join env (path repo) db (coll_id coll))]
                 \<and> snd (os_splitext env name) \<noteq> ''.base'' \<and> name \<notin> set (registered_files dbs db coll))"
    using dist k by (rule UnknownFile_coll_body_rows)
  then obtain new where new: "final_state (UnknownFile_coll_body env repo db (UnknownFile_known_body dbs db) coll rs) = rs @ new"
    "\<forall>row \<in> set new. \<exists>name. row = [S name, S (os_join env (path repo) db (coll_id coll))]
        \<and> snd (os_splitext env name) \<noteq> ''.base'' \<and> name \<notin> set (registered_files dbs db coll)"
    by blast
  have "\<forall>row \<in> set new. stray_row env repo dbs row"
  proof
    fix row
    assume "row \<in> set new"
    then obtain name where n: "row = [S name, S (os_join env (path repo) db (coll_id coll))]"
        "snd (os_splitext env name) \<noteq> ''.base''" "name \<notin> set (registered_files dbs db coll)"
      using new(2) by blast
    have "\<exists>name. row = [S name, S (os_join env (path repo) db (coll_id coll))]
        \<and> snd (os_splitext env name) \<noteq> ''.base''
        \<and> name \<notin> set (if db = ''drawings'' then registered_drawing_files env dbs coll
                         else registered_files dbs db coll)"
      using n db(2) by auto
    then show "stray_row env repo dbs row"
      unfolding stray_row_def using db(1) coll by blast
  qed
  then show ?thesis using new(1) by blast
qed

lemma UnknownFile_drawings_coll_stray:
  assumes dist: "\<And>p files. os_listdir env p = Inr files \<Longrightarrow> distinct files"
    and db: "''drawings'' \<in> set (map fst dbs)" and coll: "coll \<in> set (collections repo)"
  shows "\<exists>new. final_state (UnknownFile_coll_body env repo ''drawings'' (UnknownFile_drawing_body env dbs) coll rs)
                 = rs @ new \<and> (\<forall>row \<in> set new. stray_row env repo dbs row)"
proof -
  have k: "\<And>files files'. distinct files \<Longrightarrow>
              for_each (classes_by_ids coll) (UnknownFile_drawing_body env dbs) files = Inr files' \<Longrightarrow>
              files' = filter (\<lambda>f. f \<notin> set (registered_drawing_files env dbs coll)) files"
    by (rule UnknownFile_drawing_loop)
  have "\<exists>new. final_state (UnknownFile_coll_body env repo ''drawings'' (UnknownFile_drawing_body env dbs) coll rs) = rs @ new
           \<and> (\<forall>row \<in> set new. \<exists>name.
                 row = [S name, S (os_join env (path repo) ''drawings'' (coll_id coll))]
                 \<and> snd (os_splitext env name) \<noteq> ''.base'' \<and> name \<notin> set (registered_drawing_files env dbs coll))"
    using dist k by (rule UnknownFile_coll_body_rows)
  then obtain new where new: "final_state (UnknownFile_coll_body env repo ''drawings'' (UnknownFile_drawing_body env dbs) coll rs) = rs @ new"
    "\<forall>row \<in> set new. \<exists>name. row = [S name, S (os_join env (path repo) ''drawings'' (coll_id coll))]
        \<and> snd (os_splitext env name) \<noteq> ''.base'' \<and> name \<notin> set (registered_drawing_files env dbs coll)"
    by blast
  have "\<forall>row \<in> set new. stray_row env repo dbs row"
  proof
    fix row
    assume "row \<in> set new"
    then obtain name where n: "row = [S name, S (os_join env (path repo) ''drawings'' (coll_id coll))]"
        "snd (os_splitext env name) \<noteq> ''.base''" "name \<notin> set (registered_drawing_files env dbs coll)"
      using new(2) by blast
    have "\<exists>name. row = [S name, S (os_join env (path repo) ''drawings'' (coll_id coll))]
        \<and> snd (os_splitext env name) \<noteq> ''.base''
        \<and> name \<notin> set (if ''drawings'' = ''drawings'' then registered_drawing_files env dbs coll
                         else registered_files dbs ''drawings'' coll)"
      using n by auto
    then show "stray_row env repo dbs row"
      unfolding stray_row_def using db coll by blast
  qed
  then show ?thesis using new(1) by blast
qed


lemma contains_keys: "contains k d \<longleftrightarrow> k \<in> set (map fst d)"
  by (simp add: contains_def map_of_eq_None_iff)

lemma UnknownFile_generic_stray:
  assumes dist: "\<And>p files. os_listdir env p = Inr files \<Longrightarrow> distinct files"
    and I: "\<exists>new. rs = rows0 @ new \<and> (\<forall>row \<in> set new. stray_row env repo dbs row)"
  shows "\<exists>new. final_state (UnknownFile_generic env repo dbs rs) = rows0 @ new
           \<and> (\<forall>row \<in> set new. stray_row env repo dbs row)"
  unfolding UnknownFile_generic_def
proof (rule for_each_invariant [where I = "\<lambda>rs. \<exists>new. rs = rows0 @ new
           \<and> (\<forall>row \<in> set new. stray_row env repo dbs row)", OF I])
  fix db s
  assume db: "db \<in> set (map fst dbs)"
    and s: "\<exists>new. s = rows0 @ new \<and> (\<forall>row \<in> set new. stray_row env repo dbs row)"
  show "\<exists>new. final_state (if db = ''drawings'' then Inr s
                 else for_each (collections repo)
                        (UnknownFile_coll_body env repo db (UnknownFile_known_body dbs db)) s)
               = rows0 @ new \<and> (\<forall>row \<in> set new. stray_row env repo dbs row)"
  proof (cases "db = ''drawings''")
    case True
    then show ?thesis using s by (simp add: final_state_def)
  next
    case False
    have "\<exists>new. final_state (for_each (collections repo)
                        (UnknownFile_coll_body env repo db (UnknownFile_known_body dbs db)) s)
               = rows0 @ new \<and> (\<forall>row \<in> set new. stray_row env repo dbs row)"
    proof (rule for_each_invariant [where I = "\<lambda>rs. \<exists>new. rs = rows0 @ new
           \<and> (\<forall>row \<in> set new. stray_row env repo dbs row)", OF s])
      fix coll t
      assume coll: "coll \<in> set (collections repo)"
        and t: "\<exists>new. t = rows0 @ new \<and> (\<forall>row \<in> set new. stray_row env repo dbs row)"
      have "\<exists>new. final_state (UnknownFile_coll_body env repo db (UnknownFile_known_body dbs db) coll t)
                 = t @ new \<and> (\<forall>row \<in> set new. stray_row env repo dbs row)"
        using dist db False coll by (rule UnknownFile_generic_coll_stray)
      then show "\<exists>new. final_state (UnknownFile_coll_body env repo db (UnknownFile_known_body dbs db) coll t)
                 = rows0 @ new \<and> (\<forall>row \<in> set new. stray_row env repo dbs row)"
        using t by (rule stray_row_step)
    qed
    then show ?thesis using False by simp
  qed
qed

lemma UnknownFile_drawings_stray:
  assumes dist: "\<And>p files. os_listdir env p = Inr files \<Longrightarrow> distinct files"
    and I: "\<exists>new. rs = rows0 @ new \<and> (\<forall>row \<in> set new. stray_row env repo dbs row)"
  shows "\<exists>new. final_state (UnknownFile_drawings env repo dbs rs) = rows0 @ new
           \<and> (\<forall>row \<in> set new. stray_row env repo dbs row)"
proof (cases "contains ''drawings'' dbs")
  case False
  then show ?thesis using I by (simp add: UnknownFile_drawings_def final_state_def)
next
  case True
  then have db: "''drawings'' \<in> set (map fst dbs)" by (simp only: contains_keys)
  have "\<exists>new. final_state (for_each (collections repo)
             (UnknownFile_coll_body env repo ''drawings'' (UnknownFile_drawing_body env dbs)) rs)
           = rows0 @ new \<and> (\<forall>row \<in> set new. stray_row env repo dbs row)"
  proof (rule for_each_invariant [where I = "\<lambda>rs. \<exists>new. rs = rows0 @ new
           \<and> (\<forall>row \<in> set new. stray_row env repo dbs row)", OF I])
    fix coll t
    assume coll: "coll \<in> set (collections repo)"
      and t: "\<exists>new. t = rows0 @ new \<and> (\<forall>row \<in> set new. stray_row env repo dbs row)"
    have "\<exists>new. final_state (UnknownFile_coll_body env repo ''drawings'' (UnknownFile_drawing_body env dbs) coll t)
               = t @ new \<and> (\<forall>row \<in> set new. stray_row env repo dbs row)"
      using dist db coll by (rule UnknownFile_drawings_coll_stray)
    then show "\<exists>new. final_state (UnknownFile_coll_body env repo ''drawings'' (UnknownFile_drawing_body env dbs) coll t)
               = rows0 @ new \<and> (\<forall>row \<in> set new. stray_row env repo dbs row)"
      using t by (rule stray_row_step)
  qed
  then show ?thesis using True by (simp add: UnknownFile_drawings_def)
qed

lemma UnknownFile_populate_stray:
  assumes dist: "\<And>p files. os_listdir env p = Inr files \<Longrightarrow> distinct files"
  shows "\<exists>new. rows (final_state (UnknownFileTable_populate env self repo dbs)) = rows self @ new
           \<and> (\<forall>row \<in> set new. stray_row env repo dbs row)"
proof -
  have I0: "\<exists>new. rows self = rows self @ new \<and> (\<forall>row \<in> set new. stray_row env repo dbs row)"
    by simp
  have g: "\<exists>new. final_state (UnknownFile_generic env repo dbs (rows self)) = rows self @ new
           \<and> (\<forall>row \<in> set new. stray_row env repo dbs row)"
    using dist I0 by (rule UnknownFile_generic_stray)
  have "\<exists>new. final_state (case UnknownFile_generic env repo dbs (rows self) of
                              Inl e \<Rightarrow> Inl e
                            | Inr rs \<Rightarrow> UnknownFile_drawings env repo dbs rs) = rows self @ new
           \<and> (\<forall>row \<in> set new. stray_row env repo dbs row)"
  proof (cases "UnknownFile_generic env repo dbs (rows self)")
    case (Inl a)
    then show ?thesis using g by (simp add: final_state_def)
  next
    case (Inr rs)
    then have "\<exists>new. rs = rows self @ new \<and> (\<forall>row \<in> set new. stray_row env repo dbs row)"
      using g by (simp add: final_state_def)
    with dist have "\<exists>new. final_state (UnknownFile_drawings env repo dbs rs) = rows self @ new
           \<and> (\<forall>row \<in> set new. stray_row env repo dbs row)"
      by (rule UnknownFile_drawings_stray)
    then show ?thesis using Inr by simp
  qed
  then show ?thesis
    by (simp add: UnknownFileTable_populate_def final_state_with_rows)
qed

text \<open>
  C6. For every repository, database set and filesystem whose directory listings hold
  no name twice (as \<open>os.listdir\<close> gives them), whether populate completes or raises:
  every row UnknownFileTable.populate appends is (filename, directory) for the directory
  of some backend \<open>db\<close> of the database set and some collection of the repository, where
  the filename does not have the extension ".base" and is not a registered filename of
  any class of that collection in that backend (the BaseEntry filename in the generic
  pass, the PNG or SVG basename in the drawings pass).
\<close>

theorem UnknownFile_never_flags_sidecar_or_registered:
  assumes "\<And>p files. os_listdir env p = Inr files \<Longrightarrow> distinct files"
  shows "\<exists>new. rows (final_state (UnknownFileTable_populate env self repo dbs)) = rows self @ new
           \<and> (\<forall>row \<in> set new.
                 \<exists>db \<in> set (map fst dbs). \<exists>coll \<in> set (collections repo). \<exists>name.
                    row = [S name, S (os_join env (path repo) db (coll_id coll))]
                    \<and> snd (os_splitext env name) \<noteq> ''.base''
                    \<and> name \<notin> set (if db = ''drawings'' then registered_drawing_files env dbs coll
                                     else registered_files dbs db coll))"
  using UnknownFile_populate_stray [OF assms, where self = self and repo = repo and dbs = dbs]
  unfolding stray_row_def by simp


text \<open>The listings of the example filesystem hold no name twice.\<close>

lemma ex_listdir_distinct: "os_listdir ex_env p = Inr files \<Longrightarrow> distinct files"
  by (auto simp add: ex_env_def split: if_splits)

text \<open>At the example catalog: \<open>a.py\<close>, \<open>a.base\<close> and \<open>b.png\<close> are not flagged.\<close>

theorem UnknownFile_never_flags_sidecar_or_registered_witness:
  "os_listdir ex_env ''/r/freecad/C1'' = Inr [''a.py'', ''a.base'', ''x.txt'']
   \<and> os_listdir ex_env ''/r/drawings/C1'' = Inr [''b.png'', ''j.svg'']
   \<and> registered_files ex_dbs ''freecad'' ex_C1 = [''a.py'']
   \<and> registered_drawing_files ex_env ex_dbs ex_C1 = [''b.png'']
   \<and> snd (os_splitext ex_env ''a.base'') = ''.base''
   \<and> rows (final_state (UnknownFileTable_populate ex_env UnknownFileTable_init ex_repo ex_dbs)) =
        [[S ''x.txt'', S ''/r/freecad/C1''], [S ''j.svg'', S ''/r/drawings/C1'']]
   \<and> (\<exists>new. rows (final_state (UnknownFileTable_populate ex_env UnknownFileTable_init ex_repo ex_dbs)) =
               rows UnknownFileTable_init @ new
           \<and> (\<forall>row \<in> set new.
                 \<exists>db \<in> set (map fst ex_dbs). \<exists>coll \<in> set (collections ex_repo). \<exists>name.
                    row = [S name, S (os_join ex_env (path ex_repo) db (coll_id coll))]
                    \<and> snd (os_splitext ex_env name) \<noteq> ''.base''
                    \<and> name \<notin> set (if db = ''drawings'' then registered_drawing_files ex_env ex_dbs coll
                                     else registered_files ex_dbs db coll)))"
proof -
  have l: "os_listdir ex_env ''/r/freecad/C1'' = Inr [''a.py'', ''a.base'', ''x.txt'']
      \<and> os_listdir ex_env ''/r/drawings/C1'' = Inr [''b.png'', ''j.svg'']"
    by (simp add: ex_env_def)
  have r: "registered_files ex_dbs ''freecad'' ex_C1 = [''a.py'']
      \<and> registered_drawing_files ex_env ex_dbs ex_C1 = [''b.png'']"
    by (simp add: registered_files_def registered_drawing_files_def ex_dbs_def ex_C1_def
          ex_A_def ex_B_def ex_base_A_def ex_draw_B_def ex_env_def posix_basename_def)
  have e: "snd (os_splitext ex_env ''a.base'') = ''.base''"
    by (simp add: ex_env_def posix_splitext_def posix_basename_def)
  have p: "rows (final_state (UnknownFileTable_populate ex_env UnknownFileTable_init ex_repo ex_dbs)) =
        [[S ''x.txt'', S ''/r/freecad/C1''], [S ''j.svg'', S ''/r/drawings/C1'']]"
    by (simp add: UnknownFileTable_populate_def UnknownFile_generic_def UnknownFile_drawings_def
          UnknownFile_coll_body_def UnknownFile_known_body_def UnknownFile_drawing_body_def
          UnknownFile_left_body_def remove_known_def getitem_def contains_def with_rows_def
          final_state_def UnknownFileTable_init_def ErrorTable_init_def
          ex_repo_def ex_C1_def ex_A_def ex_B_def ex_dbs_def ex_base_A_def ex_draw_B_def ex_env_def
          posix_splitext_def posix_basename_def Let_def)
  have d: "\<And>p files. os_listdir ex_env p = Inr files \<Longrightarrow> distinct files"
    by (rule ex_listdir_distinct)
  have t: "\<exists>new. rows (final_state (UnknownFileTable_populate ex_env UnknownFileTable_init ex_repo ex_dbs)) =
               rows UnknownFileTable_init @ new
           \<and> (\<forall>row \<in> set new.
                 \<exists>db \<in> set (map fst ex_dbs). \<exists>coll \<in> set (collections ex_repo). \<exists>name.
                    row = [S name, S (os_join ex_env (path ex_repo) db (coll_id coll))]
                    \<and> snd (os_splitext ex_env name) \<noteq> ''.base''
                    \<and> name \<notin> set (if db = ''drawings'' then registered_drawing_files ex_env ex_dbs coll
                                     else registered_files ex_dbs db coll))"
    using d by (rule UnknownFile_never_flags_sidecar_or_registered)
  show ?thesis
    using l r e p t by (intro conjI) (simp_all only:)
qed

text \<open>Elements on which the body does nothing can be left out of the loop.\<close>

lemma for_each_filter_skipped:
  assumes "\<And>x s. x \<in> set xs \<Longrightarrow> \<not> P x \<Longrightarrow> body x s = Inr s"
  shows "for_each xs body s = for_each (filter P xs) body s"
  using assms by (induction xs arbitrary: s) (auto split: sum.splits)

lemma UnknownFile_coll_body_missing:
  "\<not> os_exists env (os_join env (path repo) db (coll_id coll)) \<Longrightarrow>
   UnknownFile_coll_body env repo db known coll rs = Inr rs"
  by (simp add: UnknownFile_coll_body_def)

text \<open>
  C9. A backend/collection directory that does not exist contributes no rows and raises
  no error, in the generic pass and in the drawings pass (whatever \<open>listdir\<close> would do
  on it); each loop over the collections runs as if the collections without a directory
  were not there; and when no directory exists at all, populate returns the table
  unchanged.
\<close>

theorem UnknownFile_missing_directory_skipped:
  "(\<not> os_exists env (os_join env (path repo) db (coll_id coll)) \<longrightarrow>
      UnknownFile_coll_body env repo db (UnknownFile_known_body dbs db) coll rs = Inr rs)
   \<and> (\<not> os_exists env (os_join env (path repo) ''drawings'' (coll_id coll)) \<longrightarrow>
      UnknownFile_coll_body env repo ''drawings'' (UnknownFile_drawing_body env dbs) coll rs = Inr rs)
   \<and> for_each (collections repo) (UnknownFile_coll_body env repo db known) rs =
      for_each (filter (\<lambda>coll. os_exists env (os_join env (path repo) db (coll_id coll)))
                  (collections repo))
        (UnknownFile_coll_body env repo db known) rs
   \<and> ((\<forall>db \<in> set (map fst dbs). \<forall>coll \<in> set (collections repo).
          \<not> os_exists env (os_join env (path repo) db (coll_id coll))) \<longrightarrow>
      UnknownFileTable_populate env self repo dbs = Inr self)"
proof (intro conjI impI)
  show "for_each (collections repo) (UnknownFile_coll_body env repo db known) rs =
      for_each (filter (\<lambda>coll. os_exists env (os_join env (path repo) db (coll_id coll)))
                  (collections repo))
        (UnknownFile_coll_body env repo db known) rs"
    by (rule for_each_filter_skipped) (rule UnknownFile_coll_body_missing)
next
  assume none: "\<forall>db \<in> set (map fst dbs). \<forall>coll \<in> set (collections repo).
          \<not> os_exists env (os_join env (path repo) db (coll_id coll))"
  have g: "UnknownFile_generic env repo dbs (rows self) = Inr (rows self)"
    unfolding UnknownFile_generic_def
    by (rule for_each_skip) (simp add: for_each_skip UnknownFile_coll_body_missing none)
  have d: "UnknownFile_drawings env repo dbs (rows self) = Inr (rows self)"
  proof (cases "contains ''drawings'' dbs")
    case True
    then have "''drawings'' \<in> set (map fst dbs)" by (simp only: contains_keys)
    then have "\<forall>coll \<in> set (collections repo).
          \<not> os_exists env (os_join env (path repo) ''drawings'' (coll_id coll))"
      using none by blast
    then have "for_each (collections repo)
           (UnknownFile_coll_body env repo ''drawings'' (UnknownFile_drawing_body env dbs)) (rows self)
         = Inr (rows self)"
      by (intro for_each_skip UnknownFile_coll_body_missing) blast
    then show ?thesis using True
      by (simp add: UnknownFile_drawings_def)
  next
    case False
    then show ?thesis by (simp add: UnknownFile_drawings_def)
  qed
  show "UnknownFileTable_populate env self repo dbs = Inr self"
    by (simp add: UnknownFileTable_populate_def g d with_rows_def)
qed (simp_all add: UnknownFile_coll_body_missing)


text \<open>
  Collection \<open>C2\<close> has no directory (\<open>listdir\<close> would raise there): it is skipped and
  the rows of \<open>C1\<close> are reported.
\<close>

theorem UnknownFile_missing_directory_skipped_witness:
  "\<not> os_exists ex_env (os_join ex_env (path ex_repo2) ''freecad'' (coll_id ex_C2))
   \<and> os_listdir ex_env (os_join ex_env (path ex_repo2) ''freecad'' (coll_id ex_C2)) =
       Inl (OSError ''/r/freecad/C2'')
   \<and> UnknownFile_coll_body ex_env ex_repo2 ''freecad'' (UnknownFile_known_body ex_dbs ''freecad'')
        ex_C2 [] = Inr []
   \<and> \<not> os_exists ex_env (os_join ex_env (path ex_repo2) ''drawings'' (coll_id ex_C2))
   \<and> UnknownFile_coll_body ex_env ex_repo2 ''drawings'' (UnknownFile_drawing_body ex_env ex_dbs)
        ex_C2 [] = Inr []
   \<and> UnknownFileTable_populate (ex_env\<lparr>os_exists := \<lambda>p. False\<rparr>) UnknownFileTable_init ex_repo2 ex_dbs =
       Inr UnknownFileTable_init
   \<and> UnknownFileTable_populate ex_env UnknownFileTable_init ex_repo2 ex_dbs =
       Inr (UnknownFileTable_init\<lparr>rows :=
              [[S ''x.txt'', S ''/r/freecad/C1''], [S ''j.svg'', S ''/r/drawings/C1'']]\<rparr>)"
proof -
  have n1: "\<not> os_exists ex_env (os_join ex_env (path ex_repo2) ''freecad'' (coll_id ex_C2))"
    by (simp add: ex_env_def ex_repo2_def ex_C2_def)
  have n2: "\<not> os_exists ex_env (os_join ex_env (path ex_repo2) ''drawings'' (coll_id ex_C2))"
    by (simp add: ex_env_def ex_repo2_def ex_C2_def)
  have l: "os_listdir ex_env (os_join ex_env (path ex_repo2) ''freecad'' (coll_id ex_C2)) =
       Inl (OSError ''/r/freecad/C2'')"
    by (simp add: ex_env_def ex_repo2_def ex_C2_def)
  have n3: "\<forall>db \<in> set (map fst ex_dbs). \<forall>coll \<in> set (collections ex_repo2).
          \<not> os_exists (ex_env\<lparr>os_exists := \<lambda>p. False\<rparr>)
              (os_join (ex_env\<lparr>os_exists := \<lambda>p. False\<rparr>) (path ex_repo2) db (coll_id coll))"
    by simp
  have p: "UnknownFileTable_populate ex_env UnknownFileTable_init ex_repo2 ex_dbs =
       Inr (UnknownFileTable_init\<lparr>rows :=
              [[S ''x.txt'', S ''/r/freecad/C1''], [S ''j.svg'', S ''/r/drawings/C1'']]\<rparr>)"
    by (simp add: UnknownFileTable_populate_def UnknownFile_generic_def UnknownFile_drawings_def
          UnknownFile_coll_body_def UnknownFile_known_body_def UnknownFile_drawing_body_def
          UnknownFile_left_body_def remove_known_def getitem_def contains_def with_rows_def
          UnknownFileTable_init_def ErrorTable_init_def
          ex_repo2_def ex_C1_def ex_C2_def ex_A_def ex_B_def ex_dbs_def ex_base_A_def ex_draw_B_def
          ex_env_def posix_splitext_def posix_basename_def Let_def)
  show ?thesis
    using UnknownFile_missing_directory_skipped
            [where env = ex_env and repo = ex_repo2 and db = "''freecad''" and coll = ex_C2
               and dbs = ex_dbs and rs = "[]"]
          UnknownFile_missing_directory_skipped
            [where env = "ex_env\<lparr>os_exists := \<lambda>p. False\<rparr>" and repo = ex_repo2 and dbs = ex_dbs
               and self = UnknownFileTable_init]
          n1 n2 n3 l p
    by blast
qed

section \<open>ErrorTable.print_table\<close>

text \<open>The loop "determine maximum field width" on rows that fit the headers.\<close>

lemma for_each_snoc:
  "for_each (xs @ [x]) body s =
     (case for_each xs body s of Inl e \<Rightarrow> Inl e | Inr s' \<Rightarrow> body x s')"
  by (induction xs arbitrary: s) (auto split: sum.splits)

lemma width_loop_prefix:
  "k \<le> length width \<Longrightarrow>
   for_each [0..<k] (width_body row) width =
     Inr (map (\<lambda>i. if i < k then max (length (str (row ! i))) (width ! i) else width ! i)
            [0..<length width])"
proof (induction k)
  case 0
  then show ?case by (simp add: map_nth)
next
  case (Suc k)
  then have k: "k < length width" by simp
  have "(map (\<lambda>i. if i < k then max (length (str (row ! i))) (width ! i) else width ! i)
            [0..<length width])
          [k := max (length (str (row ! k))) (width ! k)]
        = map (\<lambda>i. if i < Suc k then max (length (str (row ! i))) (width ! i) else width ! i)
            [0..<length width]"
    using k by (intro nth_equalityI) (auto simp add: nth_list_update less_Suc_eq)
  then show ?case
    using Suc k by (simp add: for_each_snoc width_body_def)
qed

lemma width_loop_row:
  "length row \<le> length width \<Longrightarrow>
   for_each [0..<length row] (width_body row) width = Inr (widen row width)"
  by (simp add: width_loop_prefix widen_def)

lemma length_widen: "length (widen row width) = length width"
  by (simp add: widen_def)

lemma width_loop_rows:
  "\<forall>row \<in> set rs. length row \<le> length width \<Longrightarrow>
   for_each rs (\<lambda>row. for_each [0..<length row] (width_body row)) width =
     Inr (fold widen rs width)"
  by (induction rs arbitrary: width) (simp_all add: width_loop_row length_widen)

lemma length_fold_widen: "length (fold widen rs width) = length width"
  by (induction rs arbitrary: width) (simp_all add: length_widen)

lemma nth_fold_widen:
  "i < length width \<Longrightarrow>
   fold widen rs width ! i =
     fold max [length (str (row ! i)). row \<leftarrow> rs, i < length row] (width ! i)"
  by (induction rs arbitrary: width) (simp_all add: length_widen widen_def)

lemma nth_fold_widen_Max:
  "i < length width \<Longrightarrow>
   fold widen rs width ! i =
     Max (set (width ! i # [length (str (row ! i)). row \<leftarrow> rs, i < length row]))"
  by (simp only: nth_fold_widen Max.set_eq_fold)

lemma field_widths_spec:
  assumes "\<forall>row \<in> set (rows self). length row \<le> length (headers self)"
  shows "field_widths self =
     Inr (map (\<lambda>i. spec_column_width self i - 2) [0..<length (headers self)])"
proof -
  have "field_widths self = Inr (fold widen (rows self) (map length (headers self)))"
    unfolding field_widths_def using assms by (intro width_loop_rows) simp
  moreover have "fold widen (rows self) (map length (headers self)) =
      map (\<lambda>i. spec_column_width self i - 2) [0..<length (headers self)]"
    by (intro nth_equalityI)
       (simp_all add: length_fold_widen nth_fold_widen_Max spec_column_width_def)
  ultimately show ?thesis by simp
qed

lemma spec_column_width_header:
  "length (headers self ! i) + 2 \<le> spec_column_width self i"
  by (simp add: spec_column_width_def)

lemma spec_column_width_cell:
  "row \<in> set (rows self) \<Longrightarrow> i < length row \<Longrightarrow>
   length (str (row ! i)) + 2 \<le> spec_column_width self i"
  unfolding spec_column_width_def
  by (simp add: Max_ge_iff) auto

lemma spec_column_width_ge2: "2 \<le> spec_column_width self i"
  by (simp add: spec_column_width_def)

text \<open>A line is the concatenation of its padded fields.\<close>

lemma field_of_concat:
  "i < length ps \<Longrightarrow>
   take (length (ps ! i)) (drop (sum_list (map length (take i ps))) (concat ps)) = ps ! i"
proof (induction ps arbitrary: i)
  case Nil
  then show ?case by simp
next
  case (Cons p ps)
  then show ?case by (cases i) simp_all
qed

lemma length_ljust: "length s \<le> w \<Longrightarrow> length (ljust w s) = w"
  by (simp add: ljust_def)


lemma field_at_concat:
  assumes "map length ps = take (length ps) W" and "i < length ps"
  shows "field_at W i (concat ps) = ps ! i"
proof -
  have "map length ps ! i = take (length ps) W ! i"
    using assms(1) by simp
  then have w: "W ! i = length (ps ! i)"
    using assms(2) by simp
  have "take i (map length ps) = take i (take (length ps) W)"
    using assms(1) by simp
  then have t: "take i W = map length (take i ps)"
    using assms(2) by (simp add: take_map min_def)
  show ?thesis
    unfolding field_at_def w t using assms(2) by (rule field_of_concat)
qed

lemma header_pieces:
  assumes "\<forall>i < length hs. length (hs ! i) \<le> W ! i" and "length W = length hs"
  shows "map length (map (\<lambda>i. ljust (W ! i) (hs ! i)) [0..<length hs]) = W"
  using assms by (intro nth_equalityI) (simp_all add: length_ljust)

lemma header_line_layout:
  assumes "\<forall>i < length hs. length (hs ! i) \<le> W ! i" and "length W = length hs"
  shows "length (header_line W hs) = sum_list W"
    and "i < length hs \<Longrightarrow> field_at W i (header_line W hs) = ljust (W ! i) (hs ! i)"
proof -
  let ?ps = "map (\<lambda>i. ljust (W ! i) (hs ! i)) [0..<length hs]"
  have m: "map length ?ps = W" using assms by (rule header_pieces)
  show "length (header_line W hs) = sum_list W"
    unfolding header_line_def length_concat m ..
  assume i: "i < length hs"
  have "map length ?ps = take (length ?ps) W"
    using m assms(2) by simp
  then have "field_at W i (concat ?ps) = ?ps ! i"
    using i by (intro field_at_concat) simp_all
  then show "field_at W i (header_line W hs) = ljust (W ! i) (hs ! i)"
    using i by (simp add: header_line_def)
qed

lemma row_line_layout:
  assumes "\<forall>i < length row. length (str (row ! i)) \<le> W ! i" and "length row \<le> length W"
    and "i < length row"
  shows "field_at W i (row_line W row) = ljust (W ! i) (str (row ! i))"
proof -
  let ?ps = "map (\<lambda>(w, v). ljust w (str v)) (zip W row)"
  have l: "length ?ps = length row" using assms(2) by simp
  have "map length ?ps = take (length row) W"
    using assms(1,2) by (intro nth_equalityI) (simp_all add: length_ljust)
  then have "map length ?ps = take (length ?ps) W"
    using l by simp
  then have "field_at W i (concat ?ps) = ?ps ! i"
    using assms(3) l by (intro field_at_concat) simp_all
  then show ?thesis
    using assms(2,3) by (simp add: row_line_def)
qed

lemma print_table_rows:
  assumes "\<forall>row \<in> set (rows self). length row \<le> length (headers self)" and "rows self \<noteq> []"
  shows "print_table self =
     Inr (str_join newline
            ([title self,
              replicate (length (title self)) (CHR ''-'') @ newline,
              description self @ newline,
              header_line (map (spec_column_width self) [0..<length (headers self)]) (headers self),
              concat (map (\<lambda>w. replicate w (CHR ''-''))
                        (map (spec_column_width self) [0..<length (headers self)]))]
             @ map (row_line (map (spec_column_width self) [0..<length (headers self)])) (rows self)
             @ [newline]))"
proof -
  have e: "spec_column_width self i - 2 + 2 = spec_column_width self i" for i
    using spec_column_width_ge2 [of self i] by arith
  have "map (\<lambda>w. w + 2) (map (\<lambda>i. spec_column_width self i - 2) [0..<length (headers self)])
        = map (spec_column_width self) [0..<length (headers self)]"
    unfolding map_map comp_def e by (rule refl)
  then show ?thesis
    using assms(2) by (simp add: print_table_def field_widths_spec [OF assms(1)] Let_def del: map_map)
qed


text \<open>The rows of a check never have more cells than there are headers.\<close>

lemma final_state_Inl: "final_state (Inl (e, s)) = s"
  by (simp add: final_state_def)

lemma final_state_Inr: "final_state (Inr s) = s"
  by (simp add: final_state_def)

lemma fits_append: "fits k rs \<Longrightarrow> length row \<le> k \<Longrightarrow> fits k (rs @ [row])"
  by (simp add: fits_def)

lemma for_each_fits:
  assumes "fits k s" and "\<And>x s. fits k s \<Longrightarrow> fits k (final_state (body x s))"
  shows "fits k (final_state (for_each xs body s))"
  using assms by (intro for_each_invariant [where I = "fits k"])

lemma MissingBase_body_fits:
  "fits 5 rs \<Longrightarrow> fits 5 (final_state (MissingBase_body dbs coll cl rs))"
  by (auto simp add: MissingBase_body_def final_state_def Let_def fits_def split: sum.splits)

lemma MissingCommonParameters_body_fits:
  "fits 3 rs \<Longrightarrow> fits 3 (final_state (MissingCommonParameters_body coll cl rs))"
  by (auto simp add: MissingCommonParameters_body_def final_state_def fits_def)

lemma MissingDrawing_body_fits:
  "fits 3 rs \<Longrightarrow> fits 3 (final_state (MissingDrawing_body dbs coll cl rs))"
  by (auto simp add: MissingDrawing_body_def final_state_def fits_def split: sum.splits)

lemma MissingBaseTable_populate_fits:
  "fits 5 (rows self) \<Longrightarrow> fits 5 (rows (final_state (MissingBaseTable_populate self repo dbs)))"
  by (simp add: MissingBaseTable_populate_def final_state_with_rows for_each_fits
        MissingBase_body_fits)

lemma MissingCommonParametersTable_populate_fits:
  "fits 3 (rows self) \<Longrightarrow>
   fits 3 (rows (final_state (MissingCommonParametersTable_populate self repo dbs)))"
  by (simp add: MissingCommonParametersTable_populate_def final_state_with_rows for_each_fits
        MissingCommonParameters_body_fits)

lemma MissingDrawingTable_populate_fits:
  "fits 3 (rows self) \<Longrightarrow> fits 3 (rows (final_state (MissingDrawingTable_populate self repo dbs)))"
  by (simp add: MissingDrawingTable_populate_def final_state_with_rows for_each_fits
        MissingDrawing_body_fits)

lemma MissingSVGSourceTable_populate_fits:
  assumes "fits 2 (rows self)"
  shows "fits 2 (rows (final_state (MissingSVGSourceTable_populate self repo dbs)))"
proof (cases "getitem dbs ''drawings''")
  case (Inl e)
  then show ?thesis using assms
    by (simp add: MissingSVGSourceTable_populate_def final_state_with_rows final_state_Inl)
next
  case (Inr d)
  have "fits 2 (final_state (for_each (getbase d)
          (\<lambda>(id, draw) rs. if get_svg draw = None
                 then Inr (rs @ [[S (filename draw), S id]]) else Inr rs) (rows self)))"
    using assms
    by (rule for_each_fits) (auto simp add: final_state_Inr fits_def split: if_splits)
  then show ?thesis using Inr
    by (simp add: MissingSVGSourceTable_populate_def final_state_with_rows)
qed

lemma UnsupportedLicense_coll_body_fits:
  "fits 5 (snd st) \<Longrightarrow> fits 5 (snd (final_state (UnsupportedLicense_coll_body env c st)))"
  by (auto simp add: UnsupportedLicense_coll_body_def final_state_def Let_def fits_def)

lemma UnsupportedLicense_base_body_fits:
  "fits 5 (snd st) \<Longrightarrow> fits 5 (snd (final_state (UnsupportedLicense_base_body env db item st)))"
  by (auto simp add: UnsupportedLicense_base_body_def final_state_def Let_def fits_def
        split: option.splits)

lemma UnsupportedLicense_loops_fits:
  assumes "fits 5 rs"
  shows "fits 5 (snd (final_state (UnsupportedLicense_loops env repo dbs rs)))"
proof -
  have first: "fits 5 (snd (final_state
      (for_each (collections repo) (UnsupportedLicense_coll_body env) (None, rs))))"
    by (rule for_each_invariant [where I = "\<lambda>st. fits 5 (snd st)"])
       (simp_all add: assms UnsupportedLicense_coll_body_fits)
  show ?thesis
  proof (cases "for_each (collections repo) (UnsupportedLicense_coll_body env) (None, rs)")
    case (Inl a)
    then show ?thesis using first
      by (simp add: UnsupportedLicense_loops_def final_state_def)
  next
    case (Inr st)
    then have st: "fits 5 (snd st)" using first by (simp add: final_state_def)
    have "fits 5 (snd (final_state (for_each (map fst dbs)
            (\<lambda>db st. case getitem dbs db of
                 Inl e \<Rightarrow> Inl (e, st)
               | Inr d \<Rightarrow> for_each (getbase d) (UnsupportedLicense_base_body env db) st)
            st)))"
    proof (rule for_each_invariant [where I = "\<lambda>st. fits 5 (snd st)", OF st])
      fix db t
      assume t: "fits 5 (snd (t :: license_state))"
      show "fits 5 (snd (final_state (case getitem dbs db of
                 Inl e \<Rightarrow> Inl (e, t)
               | Inr d \<Rightarrow> for_each (getbase d) (UnsupportedLicense_base_body env db) t)))"
      proof (cases "getitem dbs db")
        case (Inl e)
        then show ?thesis using t by (simp add: final_state_def)
      next
        case (Inr d)
        have "fits 5 (snd (final_state
                (for_each (getbase d) (UnsupportedLicense_base_body env db) t)))"
          by (rule for_each_invariant [where I = "\<lambda>st. fits 5 (snd st)", OF t])
             (rule UnsupportedLicense_base_body_fits)
        then show ?thesis using Inr by simp
      qed
    qed
    then show ?thesis using Inr
      by (simp add: UnsupportedLicense_loops_def)
  qed
qed

lemma UnsupportedLicenseTable_populate_fits:
  assumes "fits 5 (rows self)"
  shows "fits 5 (rows (final_state (UnsupportedLicenseTable_populate env self repo dbs)))"
  using UnsupportedLicense_loops_fits [OF assms, of env repo dbs]
  by (auto simp add: UnsupportedLicenseTable_populate_def final_state_def split: sum.splits)

lemma UnknownFile_left_loop_fits:
  "fits 2 rs \<Longrightarrow> fits 2 (final_state (for_each files (UnknownFile_left_body env p) rs))"
  by (rule for_each_fits)
     (auto simp add: UnknownFile_left_body_def final_state_Inr fits_def split: if_splits)

lemma UnknownFile_coll_body_fits:
  assumes "fits 2 rs"
  shows "fits 2 (final_state (UnknownFile_coll_body env repo db known coll rs))"
proof -
  let ?p = "os_join env (path repo) db (coll_id coll)"
  show ?thesis
  proof (cases "os_exists env ?p")
    case False
    then show ?thesis using assms
      by (simp add: UnknownFile_coll_body_def final_state_Inr)
  next
    case True
    show ?thesis
    proof (cases "os_listdir env ?p")
      case (Inl e)
      then show ?thesis using True assms
        by (simp add: UnknownFile_coll_body_def final_state_Inl)
    next
      case (Inr listing)
      show ?thesis
      proof (cases "for_each (classes_by_ids coll) known listing")
        case (Inl a)
        then show ?thesis using True Inr assms
          by (cases a) (simp add: UnknownFile_coll_body_def final_state_Inl)
      next
        case inner: (Inr files)
        then show ?thesis using True Inr UnknownFile_left_loop_fits [OF assms]
          by (simp add: UnknownFile_coll_body_def)
      qed
    qed
  qed
qed

lemma UnknownFile_generic_fits:
  assumes "fits 2 rs"
  shows "fits 2 (final_state (UnknownFile_generic env repo dbs rs))"
  unfolding UnknownFile_generic_def using assms
proof (rule for_each_fits)
  fix db s
  assume "fits 2 (s :: row list)"
  then show "fits 2 (final_state (if db = ''drawings'' then Inr s
                 else for_each (collections repo)
                        (UnknownFile_coll_body env repo db (UnknownFile_known_body dbs db)) s))"
    by (simp add: final_state_Inr for_each_fits UnknownFile_coll_body_fits)
qed

lemma UnknownFile_drawings_fits:
  "fits 2 rs \<Longrightarrow> fits 2 (final_state (UnknownFile_drawings env repo dbs rs))"
  by (simp add: UnknownFile_drawings_def final_state_Inr for_each_fits UnknownFile_coll_body_fits)

lemma UnknownFileTable_populate_fits:
  assumes "fits 2 (rows self)"
  shows "fits 2 (rows (final_state (UnknownFileTable_populate env self repo dbs)))"
proof (cases "UnknownFile_generic env repo dbs (rows self)")
  case (Inl a)
  then show ?thesis using UnknownFile_generic_fits [OF assms, of env repo dbs]
    by (cases a) (simp add: UnknownFileTable_populate_def final_state_with_rows final_state_Inl)
next
  case (Inr rs)
  then have "fits 2 rs"
    using UnknownFile_generic_fits [OF assms, of env repo dbs] by (simp add: final_state_Inr)
  then have "fits 2 (final_state (UnknownFile_drawings env repo dbs rs))"
    by (rule UnknownFile_drawings_fits)
  then show ?thesis using Inr
    by (simp add: UnknownFileTable_populate_def final_state_with_rows)
qed

lemma headers_with_rows: "headers (final_state (with_rows self r)) = headers self"
  by (simp add: final_state_with_rows)

lemma populate_headers:
  "headers (final_state (populate c env self repo dbs)) = headers self"
proof (cases c)
  case UnknownClassTable
  then show ?thesis by (simp add: populate_def ErrorTable_populate_def final_state_Inr)
next
  case UnsupportedLicenseTable
  then show ?thesis
    by (cases "UnsupportedLicense_loops env repo dbs (rows self)")
       (auto simp add: populate_def UnsupportedLicenseTable_populate_def final_state_Inr
          final_state_Inl)
qed (simp_all add: populate_def headers_with_rows MissingBaseTable_populate_def
       MissingCommonParametersTable_populate_def MissingDrawingTable_populate_def
       MissingSVGSourceTable_populate_def UnknownFileTable_populate_def)

lemma populate_fits:
  assumes "fits (length (headers (new c))) (rows self)"
  shows "fits (length (headers (new c))) (rows (final_state (populate c env self repo dbs)))"
proof (cases c)
  case MissingBaseTable
  then have n: "length (headers (new c)) = 5"
    by (simp add: MissingBaseTable_init_def ErrorTable_init_def)
  have p: "populate c env self repo dbs = MissingBaseTable_populate self repo dbs"
    using MissingBaseTable by (simp add: populate_def)
  show ?thesis using assms unfolding n p by (rule MissingBaseTable_populate_fits)
next
  case UnknownClassTable
  then show ?thesis using assms
    by (simp add: populate_def ErrorTable_populate_def final_state_Inr)
next
  case MissingCommonParametersTable
  then have n: "length (headers (new c)) = 3"
    by (simp add: MissingCommonParametersTable_init_def ErrorTable_init_def)
  have p: "populate c env self repo dbs = MissingCommonParametersTable_populate self repo dbs"
    using MissingCommonParametersTable by (simp add: populate_def)
  show ?thesis using assms unfolding n p by (rule MissingCommonParametersTable_populate_fits)
next
  case MissingDrawingTable
  then have n: "length (headers (new c)) = 3"
    by (simp add: MissingDrawingTable_init_def ErrorTable_init_def)
  have p: "populate c env self repo dbs = MissingDrawingTable_populate self repo dbs"
    using MissingDrawingTable by (simp add: populate_def)
  show ?thesis using assms unfolding n p by (rule MissingDrawingTable_populate_fits)
next
  case MissingSVGSourceTable
  then have n: "length (headers (new c)) = 2"
    by (simp add: MissingSVGSourceTable_init_def ErrorTable_init_def)
  have p: "populate c env self repo dbs = MissingSVGSourceTable_populate self repo dbs"
    using MissingSVGSourceTable by (simp add: populate_def)
  show ?thesis using assms unfolding n p by (rule MissingSVGSourceTable_populate_fits)
next
  case UnsupportedLicenseTable
  then have n: "length (headers (new c)) = 5"
    by (simp add: UnsupportedLicenseTable_init_def ErrorTable_init_def)
  have p: "populate c env self repo dbs = UnsupportedLicenseTable_populate env self repo dbs"
    using UnsupportedLicenseTable by (simp add: populate_def)
  show ?thesis using assms unfolding n p by (rule UnsupportedLicenseTable_populate_fits)
next
  case UnknownFileTable
  then have n: "length (headers (new c)) = 2"
    by (simp add: UnknownFileTable_init_def ErrorTable_init_def)
  have p: "populate c env self repo dbs = UnknownFileTable_populate env self repo dbs"
    using UnknownFileTable by (simp add: populate_def)
  show ?thesis using assms unfolding n p by (rule UnknownFileTable_populate_fits)
qed

lemma new_rows: "rows (new c) = []"
  by (cases c)
     (simp_all add: MissingBaseTable_init_def UnknownClassTable_init_def
        MissingCommonParametersTable_init_def MissingDrawingTable_init_def
        MissingSVGSourceTable_init_def UnsupportedLicenseTable_init_def
        UnknownFileTable_init_def ErrorTable_init_def)

lemma check_state_fits:
  "check_state c self \<Longrightarrow>
   headers self = headers (new c) \<and> fits (length (headers (new c))) (rows self)"
proof (induction rule: check_state.induct)
  case (created c)
  then show ?case by (simp add: new_rows fits_def)
next
  case (populated c self env repo dbs)
  then show ?case by (simp add: populate_headers populate_fits)
qed


text \<open>
  C5. For every check: with zero rows \<open>print_table\<close> returns the empty string; with at
  least one row it returns the block of title, underline, description, header line,
  separator, one line per row and a closing newline, in which the width of each column
  is the maximum of the header label length and of every cell's string length in that
  column plus two, the length of the header line is the sum of these widths, every
  header label fills its column, and every cell of every data row fills the same
  column, each left-justified and followed by at least two spaces.
\<close>

theorem print_table_layout:
  assumes "check_state c self"
  shows "(rows self = [] \<longrightarrow> print_table self = Inr [])
     \<and> (rows self \<noteq> [] \<longrightarrow>
          print_table self =
            Inr (str_join newline
                   ([title self,
                     replicate (length (title self)) (CHR ''-'') @ newline,
                     description self @ newline,
                     header_line (spec_column_widths self) (headers self),
                     concat (map (\<lambda>w. replicate w (CHR ''-'')) (spec_column_widths self))]
                    @ map (row_line (spec_column_widths self)) (rows self)
                    @ [newline]))
          \<and> length (header_line (spec_column_widths self) (headers self)) =
              sum_list (spec_column_widths self)
          \<and> (\<forall>i < length (headers self).
                field_at (spec_column_widths self) i
                    (header_line (spec_column_widths self) (headers self)) =
                  ljust (spec_column_width self i) (headers self ! i)
                \<and> length (headers self ! i) + 2 \<le> spec_column_width self i)
          \<and> (\<forall>row \<in> set (rows self). \<forall>i < length row.
                field_at (spec_column_widths self) i (row_line (spec_column_widths self) row) =
                  ljust (spec_column_width self i) (str (row ! i))
                \<and> length (str (row ! i)) + 2 \<le> spec_column_width self i))"
proof -
  let ?W = "spec_column_widths self"
  have ar: "\<forall>row \<in> set (rows self). length row \<le> length (headers self)"
    using check_state_fits [OF assms] by (simp add: fits_def)
  have lW: "length ?W = length (headers self)"
    by (simp add: spec_column_widths_def)
  have nW: "?W ! i = spec_column_width self i" if "i < length (headers self)" for i
    using that by (simp add: spec_column_widths_def)
  have hW: "\<forall>i < length (headers self). length (headers self ! i) \<le> ?W ! i"
  proof (intro allI impI)
    fix i
    assume "i < length (headers self)"
    then show "length (headers self ! i) \<le> ?W ! i"
      using spec_column_width_header [of self i] by (simp add: nW)
  qed
  have empty: "rows self = [] \<longrightarrow> print_table self = Inr []"
    by (simp add: print_table_def)
  have block: "rows self \<noteq> [] \<longrightarrow>
          print_table self =
            Inr (str_join newline
                   ([title self,
                     replicate (length (title self)) (CHR ''-'') @ newline,
                     description self @ newline,
                     header_line ?W (headers self),
                     concat (map (\<lambda>w. replicate w (CHR ''-'')) ?W)]
                    @ map (row_line ?W) (rows self)
                    @ [newline]))"
    unfolding spec_column_widths_def using print_table_rows [OF ar] by blast
  have hlen: "length (header_line ?W (headers self)) = sum_list ?W"
    using hW lW by (rule header_line_layout(1))
  have hfield: "\<forall>i < length (headers self).
                field_at ?W i (header_line ?W (headers self)) =
                  ljust (spec_column_width self i) (headers self ! i)
                \<and> length (headers self ! i) + 2 \<le> spec_column_width self i"
    using header_line_layout(2) [OF hW lW] spec_column_width_header [of self]
    by (simp add: nW)
  have rfield: "\<forall>row \<in> set (rows self). \<forall>i < length row.
                field_at ?W i (row_line ?W row) = ljust (spec_column_width self i) (str (row ! i))
                \<and> length (str (row ! i)) + 2 \<le> spec_column_width self i"
  proof (intro ballI allI impI)
    fix row i
    assume row: "row \<in> set (rows self)" and i: "i < length row"
    have lr: "length row \<le> length ?W" using ar row lW by simp
    have cells: "\<forall>j < length row. length (str (row ! j)) \<le> ?W ! j"
    proof (intro allI impI)
      fix j
      assume j: "j < length row"
      then have "j < length (headers self)" using lr lW by simp
      then show "length (str (row ! j)) \<le> ?W ! j"
        using spec_column_width_cell [OF row j] by (simp add: nW)
    qed
    have "i < length (headers self)" using i lr lW by simp
    then show "field_at ?W i (row_line ?W row) = ljust (spec_column_width self i) (str (row ! i))
                \<and> length (str (row ! i)) + 2 \<le> spec_column_width self i"
      using row_line_layout [OF cells lr i] spec_column_width_cell [OF row i]
      by (simp add: nW)
  qed
  show ?thesis
    using empty block hlen hfield rfield by blast
qed


text \<open>
  A table that is not a check, one row with more cells than headers: \<open>print_table\<close>
  raises IndexError.
\<close>

lemma print_table_long_row_raises:
  "print_table \<lparr>title = ''t'', description = ''d'', rows = [[S ''a'', S ''b'']], headers = [''h'']\<rparr>
     = Inl IndexError"
  by (simp add: print_table_def field_widths_def width_body_def)

text \<open>
  The example check has two cells per row under three headers: the widths are 10, 12
  and 11, the header line has 33 characters, and the row is padded to the first two
  column boundaries.
\<close>

theorem print_table_layout_witness:
  "check_state MissingDrawingTable ex_table
   \<and> rows ex_table = [[S ''C1'', S ''DIN1'']]
   \<and> headers ex_table = [''Class id'', ''Collection'', ''Standards'']
   \<and> spec_column_widths ex_table = [10, 12, 11]
   \<and> length (header_line (spec_column_widths ex_table) (headers ex_table)) = 33
   \<and> print_table ex_table =
       Inr (''Missing drawings'' @ newline
            @ ''----------------'' @ newline @ newline
            @ ''Some classes do not have associated drawings.'' @ newline @ newline
            @ ''Class id  Collection  Standards  '' @ newline
            @ ''---------------------------------'' @ newline
            @ ''C1        DIN1        '' @ newline
            @ newline)"
proof -
  have p: "final_state (populate MissingDrawingTable ex_env (new MissingDrawingTable) ex_repo ex_dbs)
             = ex_table"
    by (simp add: populate_def MissingDrawingTable_populate_def MissingDrawing_body_def
          getitem_def contains_def with_rows_def final_state_def ex_table_def
          MissingDrawingTable_init_def ErrorTable_init_def
          ex_repo_def ex_C1_def ex_A_def ex_B_def ex_dbs_def)
  have cs: "check_state MissingDrawingTable ex_table"
    using check_state.populated [OF check_state.created,
            of MissingDrawingTable ex_env ex_repo ex_dbs]
    by (simp only: p)
  have r: "rows ex_table = [[S ''C1'', S ''DIN1'']]"
    and h: "headers ex_table = [''Class id'', ''Collection'', ''Standards'']"
    and t: "title ex_table = ''Missing drawings''"
    and d: "description ex_table = ''Some classes do not have associated drawings.''"
    by (simp_all add: ex_table_def MissingDrawingTable_init_def ErrorTable_init_def)
  have w: "spec_column_widths ex_table = [10, 12, 11]"
    by (simp add: spec_column_widths_def spec_column_width_def r h upt_rec)
  have hl: "header_line [10, 12, 11] [''Class id'', ''Collection'', ''Standards'']
              = ''Class id  Collection  Standards  ''"
    by (simp add: header_line_def ljust_def upt_rec eval_nat_numeral)
  have rl: "row_line [10, 12, 11] [S ''C1'', S ''DIN1''] = ''C1        DIN1        ''"
    by (simp add: row_line_def ljust_def eval_nat_numeral)
  have sl: "replicate 10 (CHR ''-'') @ replicate 12 (CHR ''-'') @ replicate 11 (CHR ''-'')
              = ''---------------------------------''"
    by (simp add: eval_nat_numeral)
  have ul: "replicate (length ''Missing drawings'') (CHR ''-'') = ''----------------''"
    by simp
  show ?thesis
    using print_table_layout [OF cs] cs
    by (simp add: r h t d w hl rl sl ul)
qed

end
